theory Spec2Isabelle
  imports Main "HOL-Library.List_Lexorder"
begin

section \<open>Values, strings and interpreter primitives\<close>

text \<open>
  The generator (\<^verbatim>\<open>generate_pluginmaster.py\<close>) works on manifests: Python dictionaries
  obtained from \<^verbatim>\<open>json.loads\<close>. A JSON value is modelled by \<open>jvalue\<close>; a JSON
  object nested inside a value is an association list in insertion order whose keys
  are distinct. Floating point numbers are not represented. Strings are byte lists
  and stand for ASCII text.
\<close>

datatype jvalue =
    JNull
  | JBool bool
  | JInt int
  | JStr string
  | JList "jvalue list"
  | JDict "(string \<times> jvalue) list"

text \<open>The exceptions the modelled code can let escape.\<close>

datatype py_error = AttributeError | KeyError | TypeError | ValueError | IndexError

text \<open>A manifest is a \<^verbatim>\<open>Dict[str, Any]\<close>.\<close>

type_synonym manifest = "string \<rightharpoonup> jvalue"

text \<open>\<^verbatim>\<open>d.get(k, default)\<close>\<close>

definition get_default :: "manifest \<Rightarrow> string \<Rightarrow> jvalue \<Rightarrow> jvalue" where
  "get_default d k dflt = (case d k of None \<Rightarrow> dflt | Some v \<Rightarrow> v)"

text \<open>\<^verbatim>\<open>d.get(k)\<close>, where a missing key gives Python's \<^verbatim>\<open>None\<close>.\<close>

definition get_none :: "manifest \<Rightarrow> string \<Rightarrow> jvalue" where
  "get_none d k = get_default d k JNull"

text \<open>Python's \<^verbatim>\<open>==\<close> on JSON values: \<^verbatim>\<open>True == 1\<close> and \<^verbatim>\<open>False == 0\<close>.\<close>

function (sequential) py_eq :: "jvalue \<Rightarrow> jvalue \<Rightarrow> bool" where
  "py_eq JNull JNull = True"
| "py_eq (JBool a) (JBool b) = (a = b)"
| "py_eq (JBool a) (JInt j) = ((if a then 1 else 0) = j)"
| "py_eq (JInt i) (JBool b) = (i = (if b then 1 else 0))"
| "py_eq (JInt i) (JInt j) = (i = j)"
| "py_eq (JStr s) (JStr t) = (s = t)"
| "py_eq (JList xs) (JList ys) =
     (length xs = length ys \<and> list_all (\<lambda>p. py_eq (fst p) (snd p)) (zip xs ys))"
| "py_eq (JDict a) (JDict b) =
     (length a = length b \<and>
      list_all (\<lambda>kv. case map_of b (fst kv) of None \<Rightarrow> False
                                  | Some w \<Rightarrow> py_eq (snd kv) w) a)"
| "py_eq _ _ = False"
  by pat_completeness auto

termination py_eq
proof (relation "measure (\<lambda>p. size (fst p))", goal_cases)
  case 1
  show ?case by simp
next
  case (2 xs ys p)
  have member: "x \<in> set zs \<Longrightarrow> size x < Suc (size_list size zs)" for x :: jvalue and zs
    by (induction zs) auto
  from 2 have "fst p \<in> set xs"
    by (metis prod.collapse set_zip_leftD)
  then show ?case
    using member [of "fst p" xs] by simp
next
  case (3 a b kv w)
  have member: "x \<in> set zs \<Longrightarrow>
      size_prod (\<lambda>x. 0) size x < Suc (size_list (size_prod (\<lambda>x. 0) size) zs)"
    for x :: "string \<times> jvalue" and zs
    by (induction zs) auto
  have "size (snd kv) < size_prod (\<lambda>x. 0) size kv"
    by (cases kv) simp
  with 3 member [of kv a] show ?case by simp
qed

text \<open>Truthiness, as tested by \<^verbatim>\<open>if v:\<close>.\<close>

fun py_truthy :: "jvalue \<Rightarrow> bool" where
  "py_truthy JNull = False"
| "py_truthy (JBool b) = b"
| "py_truthy (JInt i) = (i \<noteq> 0)"
| "py_truthy (JStr s) = (s \<noteq> [])"
| "py_truthy (JList xs) = (xs \<noteq> [])"
| "py_truthy (JDict kvs) = (kvs \<noteq> [])"

subsection \<open>String methods\<close>

text \<open>\<^verbatim>\<open>s.startswith(p)\<close> and \<^verbatim>\<open>s.endswith(p)\<close>\<close>

fun startswith :: "string \<Rightarrow> string \<Rightarrow> bool" where
  "startswith s [] = True"
| "startswith [] (p # ps) = False"
| "startswith (c # cs) (p # ps) = (c = p \<and> startswith cs ps)"

definition endswith :: "string \<Rightarrow> string \<Rightarrow> bool" where
  "endswith s p = startswith (rev s) (rev p)"

text \<open>\<^verbatim>\<open>s.split(sep)\<close> for a one-character separator: always at least one piece.\<close>

fun split_on :: "char \<Rightarrow> string \<Rightarrow> string list" where
  "split_on sep [] = [[]]"
| "split_on sep (c # cs) =
     (if c = sep then [] # split_on sep cs
      else (case split_on sep cs of
              [] \<Rightarrow> [[c]]
            | piece # pieces \<Rightarrow> (c # piece) # pieces))"

subsection \<open>The built-in \<^verbatim>\<open>int\<close> on strings\<close>

text \<open>
  \<^verbatim>\<open>int(s)\<close> in base ten: surrounding ASCII whitespace is dropped, one sign is
  allowed, and the rest is a non-empty run of decimal digits in which single
  underscores may separate digits. More digits than the interpreter's limit
  (\<^verbatim>\<open>sys.int_info.default_max_str_digits\<close>) raise \<^verbatim>\<open>ValueError\<close> like any other
  malformed text; \<open>None\<close> is that \<^verbatim>\<open>ValueError\<close>.
\<close>

definition py_isspace :: "char \<Rightarrow> bool" where
  "py_isspace c = (c \<in> set [CHR 0x09, CHR 0x0A, CHR 0x0B, CHR 0x0C, CHR 0x0D, CHR 0x20])"

definition strip_ws :: "string \<Rightarrow> string" where
  "strip_ws s = rev (dropWhile py_isspace (rev (dropWhile py_isspace s)))"

definition digit_val :: "char \<Rightarrow> nat option" where
  "digit_val c =
     (let n = (of_char c :: nat) in if 48 \<le> n \<and> n \<le> 57 then Some (n - 48) else None)"

fun py_digits :: "string \<Rightarrow> nat list option" where
  "py_digits [] = None"
| "py_digits [c] = map_option (\<lambda>d. [d]) (digit_val c)"
| "py_digits (c # c' # cs) =
     (case digit_val c of
        None \<Rightarrow> None
      | Some d \<Rightarrow>
          map_option (Cons d) (if c' = CHR ''_'' then py_digits cs else py_digits (c' # cs)))"

definition int_max_str_digits :: nat where
  "int_max_str_digits = 4300"

definition digits_value :: "nat list \<Rightarrow> nat" where
  "digits_value ds = foldl (\<lambda>acc d. 10 * acc + d) 0 ds"

definition py_int :: "string \<Rightarrow> int option" where
  "py_int s =
     (case strip_ws s of
        [] \<Rightarrow> None
      | c # cs \<Rightarrow>
          (let neg = (c = CHR ''-'');
               body = (if c = CHR ''-'' \<or> c = CHR ''+'' then cs else c # cs)
           in case py_digits body of
                None \<Rightarrow> None
              | Some ds \<Rightarrow>
                  if int_max_str_digits < length ds then None
                  else Some (if neg then - int (digits_value ds) else int (digits_value ds))))"

section \<open>Version-based conflict resolution\<close>

text \<open>\<^verbatim>\<open>[int(x) for x in version.split('.')]\<close>; \<open>None\<close> when some component raises \<^verbatim>\<open>ValueError\<close>.\<close>

definition parse_version :: "string \<Rightarrow> int list option" where
  "parse_version v = those (map py_int (split_on CHR ''.'' v))"

text \<open>\<^verbatim>\<open>parts.extend([0] * (max_len - len(parts)))\<close>\<close>

definition extend_zeros :: "nat \<Rightarrow> int list \<Rightarrow> int list" where
  "extend_zeros max_len parts = parts @ replicate (max_len - length parts) 0"

text \<open>
  Python's \<^verbatim>\<open>xs >= ys\<close> on lists: the first position where the two differ decides;
  when one is a prefix of the other the longer one is the greater.
\<close>

fun py_list_ge :: "int list \<Rightarrow> int list \<Rightarrow> bool" where
  "py_list_ge [] [] = True"
| "py_list_ge [] (y # ys) = False"
| "py_list_ge (x # xs) [] = True"
| "py_list_ge (x # xs) (y # ys) = (if x = y then py_list_ge xs ys else y \<le> x)"

text \<open>
  \<^verbatim>\<open>PluginMasterGenerator._choose_better_manifest\<close>. A version that is not a string has
  no \<^verbatim>\<open>split\<close>: the \<^verbatim>\<open>AttributeError\<close> is not caught. The repository version is
  parsed first, so its \<^verbatim>\<open>ValueError\<close> is handled before the local one is touched.
\<close>

definition choose_better_manifest :: "manifest \<Rightarrow> manifest \<Rightarrow> py_error + manifest" where
  "choose_better_manifest repo_manifest local_manifest =
     (let repo_version = get_default repo_manifest ''AssemblyVersion'' (JStr ''0.0'');
          local_version = get_default local_manifest ''AssemblyVersion'' (JStr ''0.0'')
      in if py_eq repo_version local_version then Inr repo_manifest
         else (case repo_version of
                 JStr rv \<Rightarrow>
                   (case parse_version rv of
                      None \<Rightarrow> Inr repo_manifest
                    | Some repo_parts \<Rightarrow>
                        (case local_version of
                           JStr lv \<Rightarrow>
                             (case parse_version lv of
                                None \<Rightarrow> Inr repo_manifest
                              | Some local_parts \<Rightarrow>
                                  (let max_len = max (length repo_parts) (length local_parts);
                                       repo_parts' = extend_zeros max_len repo_parts;
                                       local_parts' = extend_zeros max_len local_parts
                                   in if py_list_ge repo_parts' local_parts'
                                      then Inr repo_manifest
                                      else Inr local_manifest))
                         | _ \<Rightarrow> Inl AttributeError))
               | _ \<Rightarrow> Inl AttributeError))"

text \<open>
  The comparison in the words of the specification: both component tuples are padded
  with zeros to a common length and compared in the lexicographic order on integer
  tuples (the order of \<open>List_Lexorder\<close>).
\<close>

definition spec_pad :: "int list \<Rightarrow> int list \<Rightarrow> int list" where
  "spec_pad a b = a @ replicate (length b - length a) 0"

definition spec_version_ge :: "int list \<Rightarrow> int list \<Rightarrow> bool" where
  "spec_version_ge a b = (spec_pad b a \<le> spec_pad a b)"

text \<open>The AssemblyVersion the resolver reads from a manifest.\<close>

definition assembly_version :: "manifest \<Rightarrow> jvalue" where
  "assembly_version m = get_default m ''AssemblyVersion'' (JStr ''0.0'')"

subsection \<open>More string methods\<close>

text \<open>\<^verbatim>\<open>sub in s\<close> on strings.\<close>

fun contains :: "string \<Rightarrow> string \<Rightarrow> bool" where
  "contains [] sub = (sub = [])"
| "contains (c # cs) sub = (startswith (c # cs) sub \<or> contains cs sub)"

text \<open>
  \<^verbatim>\<open>s.replace(old, new)\<close>: occurrences are replaced from the left and do not overlap.
  The counter is the number of characters of a matched occurrence still to be skipped.
\<close>

fun replace_from :: "nat \<Rightarrow> string \<Rightarrow> string \<Rightarrow> string \<Rightarrow> string" where
  "replace_from k old new [] = []"
| "replace_from (Suc k) old new (c # cs) = replace_from k old new cs"
| "replace_from 0 old new (c # cs) =
     (if startswith (c # cs) old then new @ replace_from (length old - 1) old new cs
      else c # replace_from 0 old new cs)"

definition replace :: "string \<Rightarrow> string \<Rightarrow> string \<Rightarrow> string" where
  "replace old new s =
     (if old = [] then new @ concat (map (\<lambda>c. c # new) s) else replace_from 0 old new s)"

text \<open>\<^verbatim>\<open>s.rstrip("/")\<close>\<close>

definition rstrip_slash :: "string \<Rightarrow> string" where
  "rstrip_slash s = rev (dropWhile (\<lambda>c. c = CHR ''/'') (rev s))"

text \<open>\<^verbatim>\<open>owner, repo = s.split("/", 1)\<close>, used where \<^verbatim>\<open>"/" in s\<close> has been checked.\<close>

definition split_slash_once :: "string \<Rightarrow> string \<times> string" where
  "split_slash_once s =
     (takeWhile (\<lambda>c. c \<noteq> CHR ''/'') s, drop 1 (dropWhile (\<lambda>c. c \<noteq> CHR ''/'') s))"

subsection \<open>\<^verbatim>\<open>str()\<close> of a JSON value, as f-strings and \<^verbatim>\<open>str.format\<close> use it\<close>

definition digit_char :: "nat \<Rightarrow> char" where
  "digit_char n = ''0123456789'' ! n"

function show_nat :: "nat \<Rightarrow> string" where
  "show_nat n = (if n < 10 then [digit_char n] else show_nat (n div 10) @ [digit_char (n mod 10)])"
  by pat_completeness auto
termination
  by (relation "measure id") auto

declare show_nat.simps [simp del]

definition show_int :: "int \<Rightarrow> string" where
  "show_int i = (if i < 0 then CHR ''-'' # show_nat (nat (- i)) else show_nat (nat i))"

definition hex_char :: "nat \<Rightarrow> char" where
  "hex_char n = ''0123456789abcdef'' ! n"

text \<open>
  \<^verbatim>\<open>repr\<close> of a string: double quotes are used when the text has a single quote and no
  double quote; the quote in use, the backslash and the control characters are escaped.
\<close>

definition repr_quote :: "string \<Rightarrow> char" where
  "repr_quote s = (if CHR 0x27 \<in> set s \<and> CHR 0x22 \<notin> set s then CHR 0x22 else CHR 0x27)"

definition repr_char :: "char \<Rightarrow> char \<Rightarrow> string" where
  "repr_char q c =
     (let n = (of_char c :: nat) in
      if c = q \<or> c = CHR 0x5C then [CHR 0x5C, c]
      else if c = CHR 0x09 then [CHR 0x5C, CHR ''t'']
      else if c = CHR 0x0A then [CHR 0x5C, CHR ''n'']
      else if c = CHR 0x0D then [CHR 0x5C, CHR ''r'']
      else if n < 32 \<or> n = 127 then [CHR 0x5C, CHR ''x'', hex_char (n div 16), hex_char (n mod 16)]
      else [c])"

definition py_repr_str :: "string \<Rightarrow> string" where
  "py_repr_str s = (let q = repr_quote s in q # concat (map (repr_char q) s) @ [q])"

text \<open>\<^verbatim>\<open>", ".join(items)\<close>\<close>

fun join_comma :: "string list \<Rightarrow> string" where
  "join_comma [] = []"
| "join_comma [x] = x"
| "join_comma (x # y # ys) = x @ '', '' @ join_comma (y # ys)"

primrec py_repr :: "jvalue \<Rightarrow> string" where
  "py_repr JNull = ''None''"
| "py_repr (JBool b) = (if b then ''True'' else ''False'')"
| "py_repr (JInt i) = show_int i"
| "py_repr (JStr s) = py_repr_str s"
| "py_repr (JList xs) = ''['' @ join_comma (map py_repr xs) @ '']''"
| "py_repr (JDict kvs) =
     ''{'' @ join_comma (map (\<lambda>kv. py_repr_str (fst kv) @ '': '' @ snd kv)
                            (map (map_prod id py_repr) kvs)) @ ''}''"

definition py_str :: "jvalue \<Rightarrow> string" where
  "py_str v = (case v of JStr s \<Rightarrow> s | _ \<Rightarrow> py_repr v)"

subsection \<open>Dictionary keys\<close>

text \<open>
  Lists and dictionaries are unhashable: using one as a key or testing it for
  membership in a dictionary or a set raises \<^verbatim>\<open>TypeError\<close>. As keys, \<^verbatim>\<open>True\<close> and
  \<^verbatim>\<open>1\<close> (and \<^verbatim>\<open>False\<close> and \<^verbatim>\<open>0\<close>) are the same key.
\<close>

definition hashable :: "jvalue \<Rightarrow> bool" where
  "hashable v = (case v of JList _ \<Rightarrow> False | JDict _ \<Rightarrow> False | _ \<Rightarrow> True)"

definition dict_key :: "jvalue \<Rightarrow> jvalue" where
  "dict_key v = (case v of JBool b \<Rightarrow> JInt (if b then 1 else 0) | _ \<Rightarrow> v)"

text \<open>Sequencing of steps that may raise.\<close>

definition bind_err :: "py_error + 'a \<Rightarrow> ('a \<Rightarrow> py_error + 'b) \<Rightarrow> py_error + 'b" where
  "bind_err r f = (case r of Inl e \<Rightarrow> Inl e | Inr x \<Rightarrow> f x)"

text \<open>A loop over a list whose body may raise: the first exception ends it.\<close>

fun map_err :: "('a \<Rightarrow> py_error + 'b) \<Rightarrow> 'a list \<Rightarrow> py_error + 'b list" where
  "map_err f [] = Inr []"
| "map_err f (x # xs) =
     (case f x of
        Inl e \<Rightarrow> Inl e
      | Inr y \<Rightarrow> (case map_err f xs of Inl e \<Rightarrow> Inl e | Inr ys \<Rightarrow> Inr (y # ys)))"

section \<open>Configuration and the outside world\<close>

text \<open>
  A download URL template is a format string whose replacement fields are
  \<^verbatim>\<open>{branch}\<close> and \<^verbatim>\<open>{plugin_name}\<close>, the two keywords the code passes to
  \<^verbatim>\<open>str.format\<close>; it is kept here as the sequence of its literal pieces and fields.
\<close>

datatype piece = Lit string | Branch | PluginName

type_synonym template = "piece list"

text \<open>\<^verbatim>\<open>template.format(branch=b, plugin_name=p)\<close>\<close>

definition format_template :: "template \<Rightarrow> string \<Rightarrow> jvalue \<Rightarrow> string" where
  "format_template t b p =
     concat (map (\<lambda>x. case x of Lit s \<Rightarrow> s | Branch \<Rightarrow> b | PluginName \<Rightarrow> py_str p) t)"

text \<open>
  The fields of \<^verbatim>\<open>Config\<close> the modelled code reads. Dictionaries that are iterated
  (\<^verbatim>\<open>output_files\<close>, \<^verbatim>\<open>field_duplicates\<close>) are association lists in insertion order. A
  path is the resolved path of a file, written relative to the working directory.
\<close>

type_synonym path = string

record config =
  branch :: string
  output_files :: "(string \<times> path) list"
  plugin_outputs :: "string \<rightharpoonup> string"
  download_urls :: "string \<rightharpoonup> template"
  required_manifest_keys :: "string list"
  field_duplicates :: "(string \<times> string list) list"
  repo :: string
  global_api_level :: int

text \<open>
  \<^verbatim>\<open>Config.load_default\<close>: the branch and the three results of \<^verbatim>\<open>_load_plugin_sources\<close>
  are the inputs, everything else is fixed by the code.
\<close>

definition base_url :: template where
  "base_url = [Lit ''https://github.com/WigglyMuffin/DalamudPlugins/raw/'', Branch,
               Lit ''/plugins/'', PluginName]"

definition default_required_manifest_keys :: "string list" where
  "default_required_manifest_keys =
     [''Author'', ''Name'', ''Punchline'', ''Description'', ''Tags'',
      ''InternalName'', ''RepoUrl'', ''Changelog'', ''AssemblyVersion'',
      ''ApplicableVersion'', ''DalamudApiLevel'', ''TestingAssemblyVersion'',
      ''TestingDalamudApiLevel'', ''IconUrl'', ''ImageUrls'', ''LastUpdate'',
      ''DownloadCount'', ''DownloadLinkInstall'', ''DownloadLinkUpdate'', ''DownloadLinkTesting'']"

definition load_default ::
  "string \<Rightarrow> (string \<times> path) list \<Rightarrow> (string \<rightharpoonup> string) \<Rightarrow> config" where
  "load_default br outs pouts =
     \<lparr> branch = br,
       output_files = outs,
       plugin_outputs = pouts,
       download_urls = [''main'' \<mapsto> base_url @ [Lit ''/latest.zip''],
                        ''testing'' \<mapsto> base_url @ [Lit ''/testing/latest.zip''],
                        ''global'' \<mapsto> base_url @ [Lit ''/global/latest.zip'']],
       required_manifest_keys = default_required_manifest_keys,
       field_duplicates = [(''DownloadLinkInstall'', [''DownloadLinkUpdate''])],
       repo = ''WigglyMuffin/DalamudPlugins'',
       global_api_level = 13 \<rparr>"

text \<open>A release asset as the release feed delivers it: a JSON object.\<close>

type_synonym asset = "string \<rightharpoonup> jvalue"

text \<open>
  What the enrichment step reads from outside the program, fixed for a run:
  the process environment; for an asset API URL and an \<^verbatim>\<open>Authorization\<close> header, the
  JSON object of a response with status 200 (\<open>None\<close> for any other status, a failed
  request or a body that is no object); for a releases API URL requested without
  headers, the \<^verbatim>\<open>assets\<close> list of a response with status 200; and whether
  \<^verbatim>\<open>icons/<file name>\<close> exists.
\<close>

record world =
  environ :: "string \<rightharpoonup> string"
  asset_info :: "string \<Rightarrow> string \<Rightarrow> asset option"
  latest_release_assets :: "string \<Rightarrow> asset list option"
  icon_exists :: "string \<Rightarrow> bool"

section \<open>Asset selection\<close>

text \<open>\<^verbatim>\<open>asset.get("name") == s\<close>\<close>

definition name_is :: "string \<Rightarrow> asset \<Rightarrow> bool" where
  "name_is s a = py_eq (get_none a ''name'') (JStr s)"

text \<open>
  A loop that calls string methods on \<^verbatim>\<open>asset.get("name", "")\<close> and stops at the first
  asset whose name satisfies the test; a name that is not a string has no such
  method.
\<close>

fun first_named :: "(string \<Rightarrow> bool) \<Rightarrow> asset list \<Rightarrow> py_error + asset option" where
  "first_named P [] = Inr None"
| "first_named P (a # as) =
     (case get_default a ''name'' (JStr []) of
        JStr n \<Rightarrow> if P n then Inr (Some a) else first_named P as
      | _ \<Rightarrow> Inl AttributeError)"

text \<open>\<^verbatim>\<open>RepositoryPluginProcessor._find_plugin_asset\<close>; the result is \<^verbatim>\<open>asset.get("url")\<close>.\<close>

definition find_plugin_asset :: "asset list \<Rightarrow> string \<Rightarrow> py_error + jvalue" where
  "find_plugin_asset assets plugin_name =
     (case find (name_is ''latest.zip'') assets of
        Some a \<Rightarrow> Inr (get_none a ''url'')
      | None \<Rightarrow>
     (case find (name_is (plugin_name @ ''.zip'')) assets of
        Some a \<Rightarrow> Inr (get_none a ''url'')
      | None \<Rightarrow>
     (case find (name_is (replace '' '' [] plugin_name @ ''.zip'')) assets of
        Some a \<Rightarrow> Inr (get_none a ''url'')
      | None \<Rightarrow>
     (case find (name_is (replace '' '' ''-'' plugin_name @ ''.zip'')) assets of
        Some a \<Rightarrow> Inr (get_none a ''url'')
      | None \<Rightarrow>
     (case first_named (\<lambda>n. endswith n ''.zip'' \<and> startswith n (plugin_name @ ''-'')) assets of
        Inl e \<Rightarrow> Inl e
      | Inr (Some a) \<Rightarrow> Inr (get_none a ''url'')
      | Inr None \<Rightarrow>
     (case first_named (\<lambda>n. endswith n ''.zip'') assets of
        Inl e \<Rightarrow> Inl e
      | Inr (Some a) \<Rightarrow> Inr (get_none a ''url'')
      | Inr None \<Rightarrow> Inr JNull))))))"

text \<open>
  The asset choice inside \<^verbatim>\<open>PluginProcessor._get_repo_download_url\<close> (the four passes
  that set \<^verbatim>\<open>preferred_asset_name\<close>); \<open>pn\<close> is the text of \<^verbatim>\<open>f"{plugin_name}"\<close>.
\<close>

definition asset_name :: "asset \<Rightarrow> string" where
  "asset_name a = py_str (get_default a ''name'' (JStr []))"

definition preferred_asset_name :: "string \<Rightarrow> asset list \<Rightarrow> py_error + string option" where
  "preferred_asset_name pn assets =
     (case find (\<lambda>a. py_eq (get_default a ''name'' (JStr [])) (JStr ''latest.zip'')) assets of
        Some a \<Rightarrow> Inr (Some (asset_name a))
      | None \<Rightarrow>
     (case first_named (\<lambda>n. endswith n ''.zip'' \<and> startswith n (pn @ ''-'')
                              \<and> \<not> endswith n ''-latest.zip'') assets of
        Inl e \<Rightarrow> Inl e
      | Inr (Some a) \<Rightarrow> Inr (Some (asset_name a))
      | Inr None \<Rightarrow>
     (case find (\<lambda>a. py_eq (get_default a ''name'' (JStr [])) (JStr (pn @ ''.zip''))) assets of
        Some a \<Rightarrow> Inr (Some (asset_name a))
      | None \<Rightarrow>
     (case first_named (\<lambda>n. endswith n ''.zip'') assets of
        Inl e \<Rightarrow> Inl e
      | Inr (Some a) \<Rightarrow> Inr (Some (asset_name a))
      | Inr None \<Rightarrow> Inr None))))"

text \<open>
  \<^verbatim>\<open>PluginProcessor._get_repo_download_url\<close>. Every exception inside is caught and gives
  \<^verbatim>\<open>None\<close>; a \<^verbatim>\<open>RepoUrl\<close> that is not a string ends in \<^verbatim>\<open>None\<close> on every path (it is
  falsy, or the membership test or \<^verbatim>\<open>replace\<close> raises).
\<close>

definition get_repo_download_url :: "world \<Rightarrow> manifest \<Rightarrow> string option" where
  "get_repo_download_url w manifest =
     (case get_default manifest ''RepoUrl'' (JStr []) of
        JStr repo_url \<Rightarrow>
          if repo_url = [] \<or> \<not> contains repo_url ''github.com'' then None
          else
            (let repo_path = rstrip_slash (replace ''https://github.com/'' [] repo_url) in
             if \<not> contains repo_path ''/'' then None
             else
               (let (owner, rp) = split_slash_once repo_path;
                    api_url = ''https://api.github.com/repos/'' @ owner @ ''/'' @ rp
                                @ ''/releases/latest''
                in case latest_release_assets w api_url of
                     None \<Rightarrow> None
                   | Some assets \<Rightarrow>
                       (case manifest ''InternalName'' of
                          None \<Rightarrow> None
                        | Some plugin_name \<Rightarrow>
                            (case preferred_asset_name (py_str plugin_name) assets of
                               Inl e \<Rightarrow> None
                             | Inr None \<Rightarrow> None
                             | Inr (Some n) \<Rightarrow>
                                 Some (''https://github.com/'' @ owner @ ''/'' @ rp
                                       @ ''/releases/latest/download/'' @ n)))))
      | _ \<Rightarrow> None)"

section \<open>Manifest enrichment\<close>

text \<open>
  \<^verbatim>\<open>PluginProcessor.add_download_links\<close> mutates the manifest in place; the model returns
  the manifest after the call, or the exception that leaves the function. The steps
  follow the order of the source.
\<close>

text \<open>
  The install link. With a stored asset URL, \<^verbatim>\<open>repo_url.replace\<close> is evaluated outside
  the \<^verbatim>\<open>try\<close> block; everything after it is inside, so a failed lookup leaves the
  manifest as it is. \<^verbatim>\<open>requests.get\<close> raises for a URL that is no string, and
  \<^verbatim>\<open>os.environ.get\<close> raises for a name that is no string.
\<close>

definition install_link ::
  "config \<Rightarrow> world \<Rightarrow> bool \<Rightarrow> jvalue \<Rightarrow> jvalue \<Rightarrow> manifest \<Rightarrow> py_error + manifest" where
  "install_link cfg w is_global plugin_name is_from_repository manifest =
     (case manifest ''_repository_asset_url'' of
        Some asset_api_url \<Rightarrow>
          (case get_default manifest ''RepoUrl'' (JStr []) of
             JStr repo_url \<Rightarrow>
               (let owner_repo = rstrip_slash (replace ''https://github.com/'' [] repo_url);
                    token_name = get_none manifest ''_repository_token_name''
                in if py_truthy token_name then
                     (case (token_name, asset_api_url) of
                        (JStr tn, JStr url) \<Rightarrow>
                          (let token = (case environ w tn of None \<Rightarrow> ''None'' | Some t \<Rightarrow> t)
                           in case asset_info w url (''token '' @ token) of
                                None \<Rightarrow> Inr manifest
                              | Some info \<Rightarrow>
                                  (let asset_name = get_none info ''name''
                                   in if py_truthy asset_name then
                                        Inr (manifest(''DownloadLinkInstall'' \<mapsto>
                                          JStr (''https://github.com/'' @ owner_repo
                                                @ ''/releases/latest/download/''
                                                @ py_str asset_name)))
                                      else Inr manifest))
                      | _ \<Rightarrow> Inr manifest)
                   else Inr manifest)
           | _ \<Rightarrow> Inl AttributeError)
      | None \<Rightarrow>
          if py_truthy is_from_repository then
            (case get_repo_download_url w manifest of
               Some repo_download_url \<Rightarrow>
                 Inr (manifest(''DownloadLinkInstall'' \<mapsto> JStr repo_download_url))
             | None \<Rightarrow> Inr manifest)
          else
            (case download_urls cfg (if is_global then ''global'' else ''main'') of
               None \<Rightarrow> Inl KeyError
             | Some t \<Rightarrow>
                 Inr (manifest(''DownloadLinkInstall'' \<mapsto>
                        JStr (format_template t (branch cfg) plugin_name)))))"

text \<open>The testing link; \<^verbatim>\<open>manifest.pop\<close> removes the resolved testing URL it uses.\<close>

definition testing_link :: "config \<Rightarrow> bool \<Rightarrow> jvalue \<Rightarrow> manifest \<Rightarrow> py_error + manifest" where
  "testing_link cfg is_global plugin_name manifest =
     (if manifest ''TestingAssemblyVersion'' \<noteq> None \<and> \<not> is_global then
        (case manifest ''_testing_download_url'' of
           Some u \<Rightarrow>
             Inr ((manifest(''_testing_download_url'' := None))(''DownloadLinkTesting'' \<mapsto> u))
         | None \<Rightarrow>
             (case download_urls cfg ''testing'' of
                None \<Rightarrow> Inl KeyError
              | Some t \<Rightarrow>
                  Inr (manifest(''DownloadLinkTesting'' \<mapsto>
                         JStr (format_template t (branch cfg) plugin_name)))))
      else Inr manifest)"

text \<open>The two nested iterations over \<^verbatim>\<open>field_duplicates\<close>.\<close>

fun duplicate_targets :: "string \<Rightarrow> string list \<Rightarrow> manifest \<Rightarrow> manifest" where
  "duplicate_targets src [] manifest = manifest"
| "duplicate_targets src (target # targets) manifest =
     duplicate_targets src targets
       (case manifest src of
          Some v \<Rightarrow> if manifest target = None then manifest(target \<mapsto> v) else manifest
        | None \<Rightarrow> manifest)"

fun duplicate_fields :: "(string \<times> string list) list \<Rightarrow> manifest \<Rightarrow> manifest" where
  "duplicate_fields [] manifest = manifest"
| "duplicate_fields ((src, targets) # rules) manifest =
     duplicate_fields rules (duplicate_targets src targets manifest)"

text \<open>The icon fallback; the icon file is \<^verbatim>\<open>icons/{plugin_name}.png\<close>.\<close>

definition icon_fallback :: "config \<Rightarrow> world \<Rightarrow> jvalue \<Rightarrow> manifest \<Rightarrow> manifest" where
  "icon_fallback cfg w plugin_name manifest =
     (if (case manifest ''IconUrl'' of None \<Rightarrow> True | Some v \<Rightarrow> \<not> py_truthy v) then
        (if icon_exists w (py_str plugin_name @ ''.png'') then
           manifest(''IconUrl'' \<mapsto>
             JStr (''https://raw.githubusercontent.com/'' @ repo cfg @ ''/main/icons/''
                   @ py_str plugin_name @ ''.png''))
         else manifest)
      else manifest)"

text \<open>\<^verbatim>\<open>f"(API{self.config.global_api_level})"\<close>\<close>

definition api_suffix :: "config \<Rightarrow> string" where
  "api_suffix cfg = ''(API'' @ show_int (global_api_level cfg) @ '')''"

definition add_download_links :: "config \<Rightarrow> world \<Rightarrow> manifest \<Rightarrow> py_error + manifest" where
  "add_download_links cfg w manifest =
     (case manifest ''Name'' of
        None \<Rightarrow> Inl KeyError
      | Some (JStr name) \<Rightarrow>
          (let is_global = endswith name (api_suffix cfg) in
           case manifest ''InternalName'' of
             None \<Rightarrow> Inl KeyError
           | Some plugin_name \<Rightarrow>
               (let is_from_repository = get_default manifest ''_repository_source'' (JBool False)
                in bind_err (install_link cfg w is_global plugin_name is_from_repository manifest)
                    (\<lambda>m1. bind_err (testing_link cfg is_global plugin_name m1)
                      (\<lambda>m2. Inr ((icon_fallback cfg w plugin_name
                                    (duplicate_fields (field_duplicates cfg) m2))
                                  (''DownloadCount'' \<mapsto> JInt 0))))))
      | Some _ \<Rightarrow> Inl AttributeError)"

text \<open>Applying the step a second time to its own result.\<close>

definition add_download_links_twice :: "config \<Rightarrow> world \<Rightarrow> manifest \<Rightarrow> py_error + manifest" where
  "add_download_links_twice cfg w manifest =
     bind_err (add_download_links cfg w manifest) (add_download_links cfg w)"

text \<open>The value of a field in the manifest a step returns.\<close>

definition field_of :: "py_error + manifest \<Rightarrow> string \<Rightarrow> py_error + jvalue option" where
  "field_of r k = (case r of Inl e \<Rightarrow> Inl e | Inr m \<Rightarrow> Inr (m k))"

text \<open>
  Conditions on the field duplication rules and on the manifest under which a second
  application changes nothing: no rule writes a field that selects the install or the
  testing link, no rule reads a field that a rule or a later step writes, and the step does
  not consume a resolved testing URL.
\<close>

definition link_inputs :: "string set" where
  "link_inputs = {''_repository_asset_url'', ''RepoUrl'', ''_repository_token_name'',
                  ''_repository_source'', ''TestingAssemblyVersion'', ''_testing_download_url''}"

definition rule_sources :: "(string \<times> string list) list \<Rightarrow> string set" where
  "rule_sources rules = set (map fst rules)"

definition rule_targets :: "(string \<times> string list) list \<Rightarrow> string set" where
  "rule_targets rules = (\<Union>r \<in> set rules. set (snd r))"

definition stable_rules :: "(string \<times> string list) list \<Rightarrow> bool" where
  "stable_rules rules =
     (rule_targets rules \<inter> link_inputs = {} \<and>
      rule_sources rules \<inter> rule_targets rules = {} \<and>
      rule_sources rules \<inter> {''IconUrl'', ''DownloadCount''} = {})"

definition consumes_testing_url :: "config \<Rightarrow> manifest \<Rightarrow> bool" where
  "consumes_testing_url cfg manifest =
     (manifest ''TestingAssemblyVersion'' \<noteq> None \<and>
      manifest ''_testing_download_url'' \<noteq> None \<and>
      \<not> endswith (py_str (get_none manifest ''Name'')) (api_suffix cfg))"

section \<open>Local archives and manifest collection\<close>

text \<open>
  An archive that exists has a modification time and, when its manifest file can be
  read and parsed, a manifest. A plugin directory has the primary archive
  \<^verbatim>\<open>latest.zip\<close> and the variants \<^verbatim>\<open>testing/latest.zip\<close> and \<^verbatim>\<open>global/latest.zip\<close>; an
  archive that does not exist is \<open>None\<close>.
\<close>

record archive =
  mtime :: int
  content :: "manifest option"

record plugin_dir =
  latest_zip :: "archive option"
  testing_zip :: "archive option"
  global_zip :: "archive option"

text \<open>
  What the collection and the later stages read from outside the program: the entries of
  the plugins directory in iteration order (\<open>None\<close> when the directory does not exist; an
  entry that is no directory has no \<open>plugin_dir\<close>), the manifests delivered by
  \<^verbatim>\<open>get_repository_plugins\<close>, the total a repository's download count fetch returns, and
  the clock.
\<close>

record sources =
  plugins_dir :: "(string \<times> plugin_dir option) list option"
  repository_plugins :: "manifest list"
  fetch_download_count :: "string \<Rightarrow> string \<Rightarrow> int"
  current_time :: int

text \<open>\<^verbatim>\<open>extract_manifest_from_zip\<close> on an archive path: \<open>None\<close> for every failure.\<close>

definition read_archive :: "archive option \<Rightarrow> manifest option" where
  "read_archive z = (case z of None \<Rightarrow> None | Some a \<Rightarrow> content a)"

text \<open>\<^verbatim>\<open>PluginProcessor.process_plugin_directory\<close>; an empty manifest is falsy.\<close>

definition process_plugin_directory :: "config \<Rightarrow> plugin_dir \<Rightarrow> py_error + manifest list" where
  "process_plugin_directory cfg d =
     (case read_archive (latest_zip d) of
        None \<Rightarrow> Inr []
      | Some base_manifest \<Rightarrow>
          if base_manifest = Map.empty then Inr []
          else
            (let base = (case read_archive (testing_zip d) of
                           None \<Rightarrow> base_manifest
                         | Some testing_manifest \<Rightarrow>
                             if testing_manifest = Map.empty then base_manifest
                             else base_manifest
                                    (''TestingAssemblyVersion'' \<mapsto>
                                       get_none testing_manifest ''AssemblyVersion'',
                                     ''TestingDalamudApiLevel'' \<mapsto>
                                       get_none testing_manifest ''DalamudApiLevel''))
             in case read_archive (global_zip d) of
                  None \<Rightarrow> Inr [base]
                | Some global_manifest \<Rightarrow>
                    if global_manifest = Map.empty then Inr [base]
                    else (case global_manifest ''Name'' of
                            None \<Rightarrow> Inl KeyError
                          | Some n \<Rightarrow>
                              Inr [base,
                                   global_manifest(''Name'' \<mapsto>
                                     JStr (py_str n @ '' '' @ api_suffix cfg))])))"

text \<open>The directory \<^verbatim>\<open>plugins_dir / name\<close>, when it exists and is a directory.\<close>

definition lookup_dir :: "sources \<Rightarrow> string \<Rightarrow> plugin_dir option" where
  "lookup_dir src name =
     (case plugins_dir src of
        None \<Rightarrow> None
      | Some entries \<Rightarrow> (case map_of entries name of Some (Some d) \<Rightarrow> Some d | _ \<Rightarrow> None))"

text \<open>
  \<^verbatim>\<open>PluginMasterGenerator._get_local_manifest\<close>; joining a path with a value that is no
  string raises \<^verbatim>\<open>TypeError\<close>.
\<close>

definition get_local_manifest :: "config \<Rightarrow> sources \<Rightarrow> jvalue \<Rightarrow> py_error + manifest option" where
  "get_local_manifest cfg src plugin_name =
     (case plugin_name of
        JStr name \<Rightarrow>
          (case lookup_dir src name of
             None \<Rightarrow> Inr None
           | Some d \<Rightarrow>
               (case process_plugin_directory cfg d of
                  Inl e \<Rightarrow> Inl e
                | Inr [] \<Rightarrow> Inr None
                | Inr (m # ms) \<Rightarrow> Inr (Some m)))
      | _ \<Rightarrow> Inl TypeError)"

text \<open>\<^verbatim>\<open>PluginMasterGenerator._collect_local_manifests\<close>\<close>

fun collect_dirs :: "config \<Rightarrow> (string \<times> plugin_dir option) list \<Rightarrow> py_error + manifest list" where
  "collect_dirs cfg [] = Inr []"
| "collect_dirs cfg ((name, None) # rest) = collect_dirs cfg rest"
| "collect_dirs cfg ((name, Some d) # rest) =
     (case process_plugin_directory cfg d of
        Inl e \<Rightarrow> Inl e
      | Inr ms \<Rightarrow> (case collect_dirs cfg rest of Inl e \<Rightarrow> Inl e | Inr ms' \<Rightarrow> Inr (ms @ ms')))"

definition collect_local_manifests :: "config \<Rightarrow> sources \<Rightarrow> py_error + manifest list" where
  "collect_local_manifests cfg src =
     (case plugins_dir src of None \<Rightarrow> Inr [] | Some entries \<Rightarrow> collect_dirs cfg entries)"

text \<open>
  The three passes of \<^verbatim>\<open>PluginMasterGenerator._collect_manifests_with_priority\<close>. The state
  of the first two is the list \<^verbatim>\<open>manifests\<close> and the set \<^verbatim>\<open>processed_plugins\<close>.
\<close>

fun collect_repository ::
  "config \<Rightarrow> sources \<Rightarrow> manifest list \<Rightarrow> manifest list \<times> jvalue set
     \<Rightarrow> py_error + manifest list \<times> jvalue set" where
  "collect_repository cfg src [] st = Inr st"
| "collect_repository cfg src (manifest # rest) (manifests, processed) =
     (let plugin_name = get_none manifest ''InternalName'' in
      if py_truthy plugin_name then
        (case get_local_manifest cfg src plugin_name of
           Inl e \<Rightarrow> Inl e
         | Inr None \<Rightarrow>
             collect_repository cfg src rest
               (manifests @ [manifest], insert (dict_key plugin_name) processed)
         | Inr (Some local_manifest) \<Rightarrow>
             (case choose_better_manifest manifest local_manifest of
                Inl e \<Rightarrow> Inl e
              | Inr chosen \<Rightarrow>
                  collect_repository cfg src rest
                    (manifests @ [chosen], insert (dict_key plugin_name) processed)))
      else collect_repository cfg src rest (manifests, processed))"

fun collect_remaining ::
  "manifest list \<Rightarrow> manifest list \<times> jvalue set \<Rightarrow> py_error + manifest list \<times> jvalue set" where
  "collect_remaining [] st = Inr st"
| "collect_remaining (manifest # rest) (manifests, processed) =
     (let plugin_name = get_none manifest ''InternalName'' in
      if py_truthy plugin_name then
        (if \<not> hashable plugin_name then Inl TypeError
         else if dict_key plugin_name \<notin> processed then
           collect_remaining rest
             (manifests @ [manifest], insert (dict_key plugin_name) processed)
         else collect_remaining rest (manifests, processed))
      else collect_remaining rest (manifests, processed))"

text \<open>\<^verbatim>\<open>self.config.plugin_outputs.get(key)\<close> for a key taken from a manifest.\<close>

definition plugin_outputs_get :: "config \<Rightarrow> jvalue \<Rightarrow> py_error + string option" where
  "plugin_outputs_get cfg key =
     (case key of
        JStr s \<Rightarrow> Inr (plugin_outputs cfg s)
      | JList _ \<Rightarrow> Inl TypeError
      | JDict _ \<Rightarrow> Inl TypeError
      | _ \<Rightarrow> Inr None)"

definition attach_output_name :: "config \<Rightarrow> manifest \<Rightarrow> py_error + manifest" where
  "attach_output_name cfg manifest =
     (if manifest ''_output_name'' \<noteq> None then Inr manifest
      else
        (case plugin_outputs_get cfg (get_default manifest ''Name'' (JStr [])) of
           Inl e \<Rightarrow> Inl e
         | Inr (Some (c # cs)) \<Rightarrow> Inr (manifest(''_output_name'' \<mapsto> JStr (c # cs)))
         | Inr _ \<Rightarrow>
             (case plugin_outputs_get cfg (get_default manifest ''InternalName'' (JStr [])) of
                Inl e \<Rightarrow> Inl e
              | Inr by_id \<Rightarrow>
                  Inr (manifest(''_output_name'' \<mapsto>
                         JStr (case by_id of None \<Rightarrow> ''default'' | Some out \<Rightarrow> out))))))"

definition collect_manifests_with_priority :: "config \<Rightarrow> sources \<Rightarrow> py_error + manifest list" where
  "collect_manifests_with_priority cfg src =
     bind_err (collect_repository cfg src (repository_plugins src) ([], {}))
       (\<lambda>st1. bind_err (collect_local_manifests cfg src)
         (\<lambda>local_manifests. bind_err (collect_remaining local_manifests st1)
           (\<lambda>st2. map_err (attach_output_name cfg) (fst st2))))"

section \<open>Counters, timestamps and the output files\<close>

text \<open>
  A file is a catalog (a JSON array of objects, as \<^verbatim>\<open>json.dump\<close> writes a list of
  manifests) or anything else. The file system maps the resolved path of each existing
  file to its content.
\<close>

datatype file_content = Catalog "manifest list" | OtherFile

type_synonym filesystem = "path \<rightharpoonup> file_content"

text \<open>The download counter cache, keyed by plugin identifier.\<close>

type_synonym count_cache = "jvalue \<rightharpoonup> jvalue"

text \<open>
  \<^verbatim>\<open>PluginMasterGenerator._load_existing_download_counts\<close>. Storing under an unhashable
  name raises inside the \<^verbatim>\<open>try\<close> block, which ends the reading of that file.
\<close>

fun load_entries :: "count_cache \<Rightarrow> manifest list \<Rightarrow> count_cache" where
  "load_entries cache [] = cache"
| "load_entries cache (plugin # rest) =
     (let plugin_name = get_none plugin ''InternalName'';
          download_count = get_default plugin ''DownloadCount'' (JInt 0)
      in if py_truthy plugin_name then
           (if hashable plugin_name
            then load_entries (cache(dict_key plugin_name \<mapsto> download_count)) rest
            else cache)
         else load_entries cache rest)"

fun load_existing_download_counts ::
  "(string \<times> path) list \<Rightarrow> filesystem \<Rightarrow> count_cache \<Rightarrow> count_cache" where
  "load_existing_download_counts [] fs cache = cache"
| "load_existing_download_counts ((output_name, output_path) # rest) fs cache =
     load_existing_download_counts rest fs
       (case fs output_path of
          Some (Catalog existing_data) \<Rightarrow> load_entries cache existing_data
        | _ \<Rightarrow> cache)"

text \<open>
  One iteration of \<^verbatim>\<open>DownloadCountUpdater.update_download_counts\<close>. Every exception is
  caught; the memo table \<^verbatim>\<open>repo_cache\<close> returns what the fetch returns.
\<close>

definition update_download_count :: "sources \<Rightarrow> manifest \<Rightarrow> manifest" where
  "update_download_count src manifest =
     (case get_default manifest ''RepoUrl'' (JStr []) of
        JStr repo_url \<Rightarrow>
          if repo_url = [] \<or> \<not> contains repo_url ''github.com'' then manifest
          else
            (let repo_path = rstrip_slash (replace ''https://github.com/'' [] repo_url) in
             if contains repo_path ''/'' then
               (let (owner, rp) = split_slash_once repo_path in
                if owner = [] \<or> rp = [] then manifest
                else manifest(''DownloadCount'' \<mapsto> JInt (fetch_download_count src owner rp)))
             else manifest)
      | _ \<Rightarrow> manifest)"

text \<open>The fallback to the cached counter, lines 737 to 741 of \<^verbatim>\<open>generate\<close>.\<close>

definition use_cached_count :: "count_cache \<Rightarrow> manifest \<Rightarrow> py_error + manifest" where
  "use_cached_count cache manifest =
     (let plugin_name = get_none manifest ''InternalName'' in
      if py_eq (get_default manifest ''DownloadCount'' (JInt 0)) (JInt 0) then
        (if hashable plugin_name then
           (case cache (dict_key plugin_name) of
              Some cached \<Rightarrow> Inr (manifest(''DownloadCount'' \<mapsto> cached))
            | None \<Rightarrow> Inr manifest)
         else Inl TypeError)
      else Inr manifest)"

text \<open>\<^verbatim>\<open>PluginMasterGenerator._set_local_timestamp\<close>\<close>

definition set_local_timestamp ::
  "config \<Rightarrow> sources \<Rightarrow> manifest \<Rightarrow> jvalue \<Rightarrow> py_error + manifest" where
  "set_local_timestamp cfg src manifest plugin_name =
     (case manifest ''Name'' of
        None \<Rightarrow> Inl KeyError
      | Some (JStr name) \<Rightarrow>
          (let is_global = endswith name (api_suffix cfg) in
           case plugin_name of
             JStr pn \<Rightarrow>
               (let zip = (case lookup_dir src pn of
                             None \<Rightarrow> None
                           | Some d \<Rightarrow> if is_global then global_zip d else latest_zip d)
                in Inr (manifest(''LastUpdate'' \<mapsto>
                     JStr (show_int (case zip of None \<Rightarrow> current_time src
                                               | Some a \<Rightarrow> mtime a)))))
           | _ \<Rightarrow> Inl TypeError)
      | Some _ \<Rightarrow> Inl AttributeError)"

text \<open>
  One iteration of the loop of \<^verbatim>\<open>_update_last_modified\<close>. An exception is caught and
  leaves the manifest as it was when the exception was raised.
\<close>

definition update_last_modified_one :: "config \<Rightarrow> sources \<Rightarrow> manifest \<Rightarrow> manifest" where
  "update_last_modified_one cfg src manifest =
     (if py_truthy (get_none manifest ''_repository_source'') then
        (if manifest ''LastUpdate'' \<noteq> None then
           (if manifest ''InternalName'' \<noteq> None
            then manifest(''_repository_source'' := None) else manifest)
         else
           (let m' = manifest(''_repository_source'' := None) in
            case m' ''InternalName'' of
              None \<Rightarrow> m'
            | Some pn \<Rightarrow> (case set_local_timestamp cfg src m' pn of Inl e \<Rightarrow> m' | Inr m'' \<Rightarrow> m'')))
      else
        (case manifest ''InternalName'' of
           None \<Rightarrow> manifest
         | Some pn \<Rightarrow>
             (case set_local_timestamp cfg src manifest pn of
                Inl e \<Rightarrow> manifest
              | Inr m'' \<Rightarrow> m'')))"

text \<open>\<^verbatim>\<open>PluginProcessor.trim_manifest\<close>\<close>

definition trim_manifest :: "config \<Rightarrow> manifest \<Rightarrow> manifest" where
  "trim_manifest cfg manifest = manifest |` set (required_manifest_keys cfg)"

text \<open>
  The destination a manifest is grouped under in \<^verbatim>\<open>_write_plugin_master\<close>: its
  \<^verbatim>\<open>_output_name\<close> when that is a configured name, otherwise \<^verbatim>\<open>default\<close>. The membership
  test raises for an unhashable value.
\<close>

definition destination :: "config \<Rightarrow> manifest \<Rightarrow> py_error + string" where
  "destination cfg m =
     (case get_default m ''_output_name'' (JStr ''default'') of
        JStr out \<Rightarrow> Inr (if out \<in> set (map fst (output_files cfg)) then out else ''default'')
      | JList _ \<Rightarrow> Inl TypeError
      | JDict _ \<Rightarrow> Inl TypeError
      | _ \<Rightarrow> Inr ''default'')"

text \<open>The record appended to a group: \<^verbatim>\<open>_output_name\<close> is dropped on the final write only.\<close>

definition clean :: "bool \<Rightarrow> manifest \<Rightarrow> manifest" where
  "clean final m = (if final then m(''_output_name'' := None) else m)"

definition grouped :: "config \<Rightarrow> bool \<Rightarrow> manifest list \<Rightarrow> string \<Rightarrow> manifest list" where
  "grouped cfg final manifests output_name =
     map (clean final) (filter (\<lambda>m. destination cfg m = Inr output_name) manifests)"

text \<open>
  The loop over \<^verbatim>\<open>output_files\<close>; the state is the file system and the set
  \<^verbatim>\<open>current_output_paths\<close>.
\<close>

fun write_outputs ::
  "(string \<times> path) list \<Rightarrow> (string \<Rightarrow> manifest list) \<Rightarrow> filesystem \<times> path set
     \<Rightarrow> filesystem \<times> path set" where
  "write_outputs [] groups st = st"
| "write_outputs ((output_name, output_path) # rest) groups (fs, current) =
     write_outputs rest groups
       (if groups output_name = [] \<and> output_name \<noteq> ''default''
        then (fs(output_path := None), current)
        else (fs(output_path \<mapsto> Catalog (groups output_name)), insert output_path current))"

text \<open>\<^verbatim>\<open>Path(".").glob("*.json")\<close>: the files of the working directory named \<^verbatim>\<open>*.json\<close>.\<close>

definition is_glob_json :: "path \<Rightarrow> bool" where
  "is_glob_json p = (CHR ''/'' \<notin> set p \<and> endswith p ''.json'')"

text \<open>\<^verbatim>\<open>PluginMasterGenerator._cleanup_stale_outputs\<close>\<close>

definition cleanup_stale_outputs :: "path set \<Rightarrow> filesystem \<Rightarrow> filesystem" where
  "cleanup_stale_outputs current fs =
     (\<lambda>p. if is_glob_json p \<and> p \<notin> current \<and> p \<noteq> ''plugin-sources.json'' then None else fs p)"

text \<open>
  \<^verbatim>\<open>PluginMasterGenerator._write_plugin_master\<close>. The grouping loop runs before anything is
  written, so an exception there leaves the files untouched. The result is the file
  system after the call together with \<^verbatim>\<open>current_output_paths\<close>.
\<close>

definition write_plugin_master ::
  "config \<Rightarrow> manifest list \<Rightarrow> bool \<Rightarrow> filesystem \<Rightarrow> py_error + filesystem \<times> path set" where
  "write_plugin_master cfg manifests final fs =
     (case map_err (destination cfg) manifests of
        Inl e \<Rightarrow> Inl e
      | Inr dests \<Rightarrow>
          (let (fs', current) =
                 write_outputs (output_files cfg) (grouped cfg final manifests) (fs, {})
           in Inr (if final then cleanup_stale_outputs current fs' else fs', current)))"

text \<open>
  Lines 745 to 754 of \<^verbatim>\<open>generate\<close>: the routing table, the trimming and the re-attachment
  of \<^verbatim>\<open>_output_name\<close>.
\<close>

fun output_routing :: "manifest list \<Rightarrow> (jvalue \<rightharpoonup> jvalue) \<Rightarrow> py_error + (jvalue \<rightharpoonup> jvalue)" where
  "output_routing [] routing = Inr routing"
| "output_routing (m # ms) routing =
     (let key = get_none m ''InternalName'' in
      if hashable key
      then output_routing ms
             (routing(dict_key key \<mapsto> get_default m ''_output_name'' (JStr ''default'')))
      else Inl TypeError)"

definition reattach :: "(jvalue \<rightharpoonup> jvalue) \<Rightarrow> manifest \<Rightarrow> manifest" where
  "reattach routing m =
     m(''_output_name'' \<mapsto>
        (case routing (dict_key (get_none m ''InternalName'')) of
           None \<Rightarrow> JStr ''default'' | Some out \<Rightarrow> out))"

definition trim_and_route :: "config \<Rightarrow> manifest list \<Rightarrow> py_error + manifest list" where
  "trim_and_route cfg manifests =
     (case output_routing manifests Map.empty of
        Inl e \<Rightarrow> Inl e
      | Inr routing \<Rightarrow> Inr (map (\<lambda>m. reattach routing (trim_manifest cfg m)) manifests))"

text \<open>
  \<^verbatim>\<open>PluginMasterGenerator.generate\<close> from the fallback to the cached counters to the final
  write: the manifests are those left by the live counter fetch. The result is the list
  handed to the final write, the file system after it and the paths it wrote.
\<close>

definition finish_run ::
  "config \<Rightarrow> sources \<Rightarrow> count_cache \<Rightarrow> filesystem \<Rightarrow> manifest list
     \<Rightarrow> py_error + manifest list \<times> filesystem \<times> path set" where
  "finish_run cfg src cache fs manifests =
     bind_err (map_err (use_cached_count cache) manifests)
       (\<lambda>ms1. let ms2 = map (update_last_modified_one cfg src) ms1 in
          bind_err (write_plugin_master cfg ms2 False fs)
            (\<lambda>(fs1, written1). bind_err (trim_and_route cfg ms2)
               (\<lambda>ms3. bind_err (write_plugin_master cfg ms3 True fs1)
                  (\<lambda>(fs2, written2). Inr (ms3, fs2, written2)))))"

text \<open>
  \<^verbatim>\<open>PluginMasterGenerator.generate\<close>. \<^verbatim>\<open>Config.load_default\<close> leaves \<^verbatim>\<open>external_plugins\<close> and
  \<^verbatim>\<open>plugin_aliases\<close> empty, so the external download and the alias files do nothing.
\<close>

definition generate ::
  "config \<Rightarrow> world \<Rightarrow> sources \<Rightarrow> filesystem \<Rightarrow> py_error + manifest list \<times> filesystem \<times> path set" where
  "generate cfg w src fs =
     (let cache = load_existing_download_counts (output_files cfg) fs Map.empty in
      bind_err (collect_manifests_with_priority cfg src)
        (\<lambda>manifests. bind_err (map_err (add_download_links cfg w) manifests)
           (\<lambda>enriched. finish_run cfg src cache fs (map (update_download_count src) enriched))))"

text \<open>
  Reading the result of a write pass: the content of one file afterwards, and the
  condition under which a destination is skipped by the loop over \<^verbatim>\<open>output_files\<close>.
\<close>

definition file_after ::
  "py_error + filesystem \<times> path set \<Rightarrow> path \<Rightarrow> py_error + file_content option" where
  "file_after r p = (case r of Inl e \<Rightarrow> Inl e | Inr (fs, current) \<Rightarrow> Inr (fs p))"

definition skipped :: "(string \<Rightarrow> manifest list) \<Rightarrow> string \<Rightarrow> bool" where
  "skipped groups n = (groups n = [] \<and> n \<noteq> ''default'')"

text \<open>
  The values used as dictionary keys are hashable: the identifier and the routing tag of
  a manifest. Manifests of this kind never make the grouping or the routing table raise.
\<close>

definition routable :: "manifest \<Rightarrow> bool" where
  "routable m = hashable (get_default m ''_output_name'' (JStr ''default''))"

definition well_keyed :: "manifest \<Rightarrow> bool" where
  "well_keyed m = (hashable (get_none m ''InternalName'') \<and> routable m)"

text \<open>The internal routing and provenance fields.\<close>

definition internal_fields :: "string set" where
  "internal_fields = {''_output_name'', ''_repository_source'', ''_repository_asset_url'',
                      ''_repository_token_name'', ''_testing_download_url''}"

text \<open>
  A manifest is saturated for the rules when no rule has anything left to copy: every
  rule whose source field is present has all its target fields present.
\<close>

definition saturated :: "(string \<times> string list) list \<Rightarrow> manifest \<Rightarrow> bool" where
  "saturated rules x = (\<forall>(s, ts) \<in> set rules. x s \<noteq> None \<longrightarrow> (\<forall>t \<in> set ts. x t \<noteq> None))"

text \<open>
  Example inputs: a world in which one asset lookup succeeds and no icon is stored, a
  manifest as the repository processor produces it for a plugin with a testing
  pre-release, and a manifest read from a local archive with a testing variant.
\<close>

definition example_world :: world where
  "example_world =
     \<lparr> environ = Map.empty,
       asset_info = (\<lambda>url hdr. if url = ''https://api.github.com/repos/o/r/releases/assets/1''
                                then Some [''name'' \<mapsto> JStr ''latest.zip''] else None),
       latest_release_assets = (\<lambda>url. None),
       icon_exists = (\<lambda>f. False) \<rparr>"

definition example_repo_manifest :: manifest where
  "example_repo_manifest =
     [''Name'' \<mapsto> JStr ''Foo'', ''InternalName'' \<mapsto> JStr ''Foo'',
      ''RepoUrl'' \<mapsto> JStr ''https://github.com/o/r'',
      ''_repository_source'' \<mapsto> JBool True,
      ''_repository_asset_url'' \<mapsto> JStr ''https://api.github.com/repos/o/r/releases/assets/1'',
      ''_repository_token_name'' \<mapsto> JStr ''GITHUB_TOKEN'',
      ''TestingAssemblyVersion'' \<mapsto> JStr ''2.0.0'',
      ''_testing_download_url'' \<mapsto>
         JStr ''https://github.com/o/r/releases/download/v2.0.0/latest.zip'']"

definition example_local_manifest :: manifest where
  "example_local_manifest =
     [''Name'' \<mapsto> JStr ''Bar'', ''InternalName'' \<mapsto> JStr ''Bar'',
      ''TestingAssemblyVersion'' \<mapsto> JStr ''1.1'']"

definition example_config :: config where
  "example_config = load_default ''main'' [(''default'', ''pluginmaster.json'')] Map.empty"

text \<open>The same configuration with two duplication rules, the second feeding the first.\<close>

definition example_chained_config :: config where
  "example_chained_config =
     example_config \<lparr> field_duplicates :=
       [(''DownloadLinkUpdate'', [''Mirror'']), (''DownloadLinkInstall'', [''DownloadLinkUpdate''])] \<rparr>"

text \<open>
  Example inputs for the write pass: two configured destinations, a manifest routed to
  each of them, and a working directory that holds an old catalog of the second
  destination, a catalog of a destination no longer configured, a JSON file that is no
  catalog, the source configuration and a catalog in a subdirectory.
\<close>

definition example_two_outputs :: config where
  "example_two_outputs = load_default ''main'' [(''A'', ''a.json''), (''B'', ''b.json'')] Map.empty"

definition example_for_A :: manifest where
  "example_for_A = [''InternalName'' \<mapsto> JStr ''P'', ''_output_name'' \<mapsto> JStr ''A'']"

definition example_for_B :: manifest where
  "example_for_B = [''InternalName'' \<mapsto> JStr ''Q'', ''_output_name'' \<mapsto> JStr ''B'']"

definition example_disk :: filesystem where
  "example_disk = [''b.json'' \<mapsto> Catalog [], ''c.json'' \<mapsto> Catalog [],
                   ''notes.json'' \<mapsto> OtherFile, ''plugin-sources.json'' \<mapsto> OtherFile,
                   ''feeds/old.json'' \<mapsto> Catalog []]"

text \<open>
  What the fallback to the cached counter and the timestamp step together do to one
  manifest when nothing raises, and reading the result of the end of a run: the
  counter of the manifest at a position, and the content of a file.
\<close>

definition with_cached_count :: "count_cache \<Rightarrow> manifest \<Rightarrow> manifest" where
  "with_cached_count cache m =
     (if py_eq (get_default m ''DownloadCount'' (JInt 0)) (JInt 0) then
        (case cache (dict_key (get_none m ''InternalName'')) of
           Some cached \<Rightarrow> m(''DownloadCount'' \<mapsto> cached)
         | None \<Rightarrow> m)
      else m)"

definition tail_manifest :: "config \<Rightarrow> sources \<Rightarrow> count_cache \<Rightarrow> manifest \<Rightarrow> manifest" where
  "tail_manifest cfg src cache m = update_last_modified_one cfg src (with_cached_count cache m)"

definition count_after ::
  "py_error + manifest list \<times> filesystem \<times> path set \<Rightarrow> nat \<Rightarrow> py_error + jvalue option" where
  "count_after r i =
     (case r of Inl e \<Rightarrow> Inl e | Inr (out, fs, written) \<Rightarrow> Inr ((out ! i) ''DownloadCount''))"

definition catalog_after ::
  "py_error + manifest list \<times> filesystem \<times> path set \<Rightarrow> path \<Rightarrow> py_error + file_content option" where
  "catalog_after r p = (case r of Inl e \<Rightarrow> Inl e | Inr (out, fs, written) \<Rightarrow> Inr (fs p))"

text \<open>
  Example inputs for the end of a run and for the collection: two manifests after the
  live counter fetch, the catalog of a previous run, and a plugin directory with a
  primary and a global archive whose manifests carry the same identifier.
\<close>

definition example_uncounted :: manifest where
  "example_uncounted =
     [''Name'' \<mapsto> JStr ''Foo'', ''InternalName'' \<mapsto> JStr ''Foo'',
      ''RepoUrl'' \<mapsto> JStr ''https://github.com/o/r'',
      ''_repository_source'' \<mapsto> JBool True,
      ''_repository_asset_url'' \<mapsto> JStr ''https://api.github.com/repos/o/r/releases/assets/1'',
      ''_repository_token_name'' \<mapsto> JStr ''GITHUB_TOKEN'',
      ''_output_name'' \<mapsto> JStr ''default'',
      ''LastUpdate'' \<mapsto> JStr ''1700000000'',
      ''DownloadCount'' \<mapsto> JInt 0]"

definition example_counted :: manifest where
  "example_counted =
     [''Name'' \<mapsto> JStr ''Bar'', ''InternalName'' \<mapsto> JStr ''Bar'',
      ''_output_name'' \<mapsto> JStr ''default'', ''DownloadCount'' \<mapsto> JInt 5]"

definition example_primary :: manifest where
  "example_primary = [''InternalName'' \<mapsto> JStr ''Foo'', ''Name'' \<mapsto> JStr ''Foo'',
                      ''AssemblyVersion'' \<mapsto> JStr ''1.0.0'', ''DalamudApiLevel'' \<mapsto> JInt 12]"

definition example_global :: manifest where
  "example_global = [''InternalName'' \<mapsto> JStr ''Foo'', ''Name'' \<mapsto> JStr ''Foo'',
                     ''AssemblyVersion'' \<mapsto> JStr ''1.0.0'', ''DalamudApiLevel'' \<mapsto> JInt 13]"

definition example_plugin_dir :: plugin_dir where
  "example_plugin_dir =
     \<lparr> latest_zip = Some \<lparr> mtime = 1700000000, content = Some example_primary \<rparr>,
       testing_zip = None,
       global_zip = Some \<lparr> mtime = 1700000100, content = Some example_global \<rparr> \<rparr>"

definition example_local_sources :: sources where
  "example_local_sources =
     \<lparr> plugins_dir = Some [(''Foo'', Some example_plugin_dir)],
       repository_plugins = [],
       fetch_download_count = (\<lambda>owner rp. 0),
       current_time = 1700000500 \<rparr>"

definition example_previous_disk :: filesystem where
  "example_previous_disk =
     [''pluginmaster.json'' \<mapsto>
        Catalog [[''InternalName'' \<mapsto> JStr ''Foo'', ''DownloadCount'' \<mapsto> JInt 42],
                 [''InternalName'' \<mapsto> JStr ''Bar'', ''DownloadCount'' \<mapsto> JInt 7]]]"

section \<open>Properties of the conflict resolution\<close>

lemma py_list_ge_lexord: "py_list_ge xs ys \<longleftrightarrow> ys \<le> xs"
proof (induction xs ys rule: py_list_ge.induct)
  case (4 x xs y ys)
  then show ?case by auto
qed simp_all

lemma extend_zeros_spec_pad:
  "extend_zeros (max (length a) (length b)) a = spec_pad a b"
  by (simp add: extend_zeros_def spec_pad_def max_def)

lemma extend_zeros_spec_pad':
  "extend_zeros (max (length a) (length b)) b = spec_pad b a"
  by (simp add: extend_zeros_def spec_pad_def max_def)

lemma padded_ge_spec:
  "py_list_ge (extend_zeros (max (length a) (length b)) a)
              (extend_zeros (max (length a) (length b)) b) = spec_version_ge a b"
  by (simp add: extend_zeros_spec_pad extend_zeros_spec_pad' py_list_ge_lexord
      spec_version_ge_def)

lemma spec_version_ge_refl: "spec_version_ge a a"
  by (simp add: spec_version_ge_def)

text \<open>
  C1. When both manifests carry a string AssemblyVersion (or none, which reads as
  \<^verbatim>\<open>"0.0"\<close>), the resolver returns the repository manifest exactly when one of the two
  strings does not parse or the repository tuple is greater than or equal to the local
  tuple in the padded lexicographic order; otherwise, that is when the local version is
  strictly greater, it returns the local manifest. It never raises on such input.
\<close>

theorem choose_better_manifest_spec:
  assumes "assembly_version repo_manifest = JStr rv"
    and "assembly_version local_manifest = JStr lv"
  shows "choose_better_manifest repo_manifest local_manifest =
           Inr (case (parse_version rv, parse_version lv) of
                  (Some r, Some l) \<Rightarrow>
                    if spec_version_ge r l then repo_manifest else local_manifest
                | _ \<Rightarrow> repo_manifest)"
proof (cases "rv = lv")
  case True
  with assms show ?thesis
    by (simp add: choose_better_manifest_def assembly_version_def spec_version_ge_refl
        split: option.splits)
next
  case False
  with assms show ?thesis
    by (simp add: choose_better_manifest_def assembly_version_def padded_ge_spec Let_def
        split: option.splits)
qed

lemmas version_eval =
  assembly_version_def get_default_def parse_version_def py_int_def strip_ws_def
  py_isspace_def digit_val_def digits_value_def int_max_str_digits_def
  spec_version_ge_def spec_pad_def

theorem choose_better_manifest_spec_witness:
  "assembly_version [''AssemblyVersion'' \<mapsto> JStr ''1.0.1''] = JStr ''1.0.1'' \<and>
   assembly_version [''AssemblyVersion'' \<mapsto> JStr ''1.0.0''] = JStr ''1.0.0'' \<and>
   choose_better_manifest [''AssemblyVersion'' \<mapsto> JStr ''1.0.1'']
                          [''AssemblyVersion'' \<mapsto> JStr ''1.0.0'']
     = Inr [''AssemblyVersion'' \<mapsto> JStr ''1.0.1''] \<and>
   choose_better_manifest [''AssemblyVersion'' \<mapsto> JStr ''1.0.0'']
                          [''AssemblyVersion'' \<mapsto> JStr ''1.0.1'']
     = Inr [''AssemblyVersion'' \<mapsto> JStr ''1.0.1''] \<and>
   assembly_version [''Name'' \<mapsto> JStr ''repo'', ''AssemblyVersion'' \<mapsto> JStr ''1.2.0'']
     = JStr ''1.2.0'' \<and>
   assembly_version [''Name'' \<mapsto> JStr ''local'', ''AssemblyVersion'' \<mapsto> JStr ''1.2'']
     = JStr ''1.2'' \<and>
   choose_better_manifest
       [''Name'' \<mapsto> JStr ''repo'', ''AssemblyVersion'' \<mapsto> JStr ''1.2.0'']
       [''Name'' \<mapsto> JStr ''local'', ''AssemblyVersion'' \<mapsto> JStr ''1.2'']
     = Inr [''Name'' \<mapsto> JStr ''repo'', ''AssemblyVersion'' \<mapsto> JStr ''1.2.0''] \<and>
   choose_better_manifest
       [''Name'' \<mapsto> JStr ''repo'', ''AssemblyVersion'' \<mapsto> JStr ''1.x'']
       [''Name'' \<mapsto> JStr ''local'', ''AssemblyVersion'' \<mapsto> JStr ''9.9'']
     = Inr [''Name'' \<mapsto> JStr ''repo'', ''AssemblyVersion'' \<mapsto> JStr ''1.x'']"
  using
    choose_better_manifest_spec [of "[''AssemblyVersion'' \<mapsto> JStr ''1.0.1'']" "''1.0.1''"
      "[''AssemblyVersion'' \<mapsto> JStr ''1.0.0'']" "''1.0.0''"]
    choose_better_manifest_spec [of "[''AssemblyVersion'' \<mapsto> JStr ''1.0.0'']" "''1.0.0''"
      "[''AssemblyVersion'' \<mapsto> JStr ''1.0.1'']" "''1.0.1''"]
    choose_better_manifest_spec [of
      "[''Name'' \<mapsto> JStr ''repo'', ''AssemblyVersion'' \<mapsto> JStr ''1.2.0'']" "''1.2.0''"
      "[''Name'' \<mapsto> JStr ''local'', ''AssemblyVersion'' \<mapsto> JStr ''1.2'']" "''1.2''"]
    choose_better_manifest_spec [of
      "[''Name'' \<mapsto> JStr ''repo'', ''AssemblyVersion'' \<mapsto> JStr ''1.x'']" "''1.x''"
      "[''Name'' \<mapsto> JStr ''local'', ''AssemblyVersion'' \<mapsto> JStr ''9.9'']" "''9.9''"]
  by (simp add: version_eval)

section \<open>Properties of asset selection\<close>

lemmas asset_eval = find_plugin_asset_def preferred_asset_name_def name_is_def get_none_def
  get_default_def endswith_def asset_name_def py_str_def replace_def

lemma first_named_find:
  assumes "\<forall>a \<in> set as. \<exists>n. get_default a ''name'' (JStr []) = JStr n"
  shows "first_named P as = Inr (find (\<lambda>a. P (asset_name a)) as)"
  using assms by (induction as) (auto simp: asset_name_def py_str_def)

text \<open>
  In the repository asset selection the exact name comes before the prefix rule: with no
  \<^verbatim>\<open>latest.zip\<close>, the first asset named \<^verbatim>\<open>{plugin_name}.zip\<close> is returned whatever else
  is in the list.
\<close>

lemma find_plugin_asset_exact_name:
  assumes "find (name_is ''latest.zip'') assets = None"
    and "find (name_is (pn @ ''.zip'')) assets = Some a"
  shows "find_plugin_asset assets pn = Inr (get_none a ''url'')"
  using assms by (simp add: find_plugin_asset_def)

text \<open>
  In the download URL selection the prefix rule comes first: with no \<^verbatim>\<open>latest.zip\<close>,
  the first asset with the prefix (and without the \<^verbatim>\<open>-latest.zip\<close> ending) is chosen,
  whether or not an asset named \<^verbatim>\<open>{plugin_name}.zip\<close> is present.
\<close>

lemma preferred_asset_name_prefix_first:
  assumes "\<forall>a \<in> set assets. \<exists>n. get_default a ''name'' (JStr []) = JStr n"
    and "\<forall>a \<in> set assets. asset_name a \<noteq> ''latest.zip''"
    and "find (\<lambda>a. endswith (asset_name a) ''.zip'' \<and> startswith (asset_name a) (pn @ ''-'')
                     \<and> \<not> endswith (asset_name a) ''-latest.zip'') assets = Some a"
  shows "preferred_asset_name pn assets = Inr (Some (asset_name a))"
proof -
  have "find (\<lambda>a. py_eq (get_default a ''name'' (JStr [])) (JStr ''latest.zip'')) assets = None"
    using assms(1,2) by (fastforce simp: find_None_iff asset_name_def py_str_def)
  then show ?thesis
    using assms(3) first_named_find [OF assms(1)]
    by (simp add: preferred_asset_name_def)
qed

text \<open>
  C3. For the plugin \<^verbatim>\<open>Foo\<close> and a release with the assets \<^verbatim>\<open>Foo.zip\<close> and
  \<^verbatim>\<open>Foo-1.0.zip\<close>, in either order, the repository asset selection returns the
  locator of \<^verbatim>\<open>Foo.zip\<close>, but the download URL selection chooses \<^verbatim>\<open>Foo-1.0.zip\<close>: there
  the prefix rule is tried before the exact name.
\<close>

theorem exact_name_before_prefix_only_in_find_plugin_asset:
  "find_plugin_asset
     [[''name'' \<mapsto> JStr ''Foo.zip'', ''url'' \<mapsto> JStr ''u1''],
      [''name'' \<mapsto> JStr ''Foo-1.0.zip'', ''url'' \<mapsto> JStr ''u2'']] ''Foo'' = Inr (JStr ''u1'') \<and>
   find_plugin_asset
     [[''name'' \<mapsto> JStr ''Foo-1.0.zip'', ''url'' \<mapsto> JStr ''u2''],
      [''name'' \<mapsto> JStr ''Foo.zip'', ''url'' \<mapsto> JStr ''u1'']] ''Foo'' = Inr (JStr ''u1'') \<and>
   preferred_asset_name ''Foo''
     [[''name'' \<mapsto> JStr ''Foo.zip'', ''url'' \<mapsto> JStr ''u1''],
      [''name'' \<mapsto> JStr ''Foo-1.0.zip'', ''url'' \<mapsto> JStr ''u2'']] = Inr (Some ''Foo-1.0.zip'') \<and>
   preferred_asset_name ''Foo''
     [[''name'' \<mapsto> JStr ''Foo-1.0.zip'', ''url'' \<mapsto> JStr ''u2''],
      [''name'' \<mapsto> JStr ''Foo.zip'', ''url'' \<mapsto> JStr ''u1'']] = Inr (Some ''Foo-1.0.zip'')"
  by (simp add: asset_eval)

text \<open>
  C4. For the plugin \<^verbatim>\<open>Foo\<close> and a release with the assets \<^verbatim>\<open>other.zip\<close> and
  \<^verbatim>\<open>Foo-1.2.3-latest.zip\<close>, the download URL selection skips the second asset in its
  prefix rule and falls back to \<^verbatim>\<open>other.zip\<close>, but the repository asset selection has
  no such exclusion and returns the locator of \<^verbatim>\<open>Foo-1.2.3-latest.zip\<close>.
\<close>

theorem latest_suffix_excluded_only_in_preferred_asset_name:
  "preferred_asset_name ''Foo''
     [[''name'' \<mapsto> JStr ''other.zip'', ''url'' \<mapsto> JStr ''u1''],
      [''name'' \<mapsto> JStr ''Foo-1.2.3-latest.zip'', ''url'' \<mapsto> JStr ''u2'']]
     = Inr (Some ''other.zip'') \<and>
   find_plugin_asset
     [[''name'' \<mapsto> JStr ''other.zip'', ''url'' \<mapsto> JStr ''u1''],
      [''name'' \<mapsto> JStr ''Foo-1.2.3-latest.zip'', ''url'' \<mapsto> JStr ''u2'']] ''Foo''
     = Inr (JStr ''u2'')"
  by (simp add: asset_eval)

section \<open>Properties of the enrichment step\<close>


lemma duplicate_targets_apply:
  "duplicate_targets src ts x k =
     (case x k of Some v \<Rightarrow> Some v | None \<Rightarrow> if k \<in> set ts then x src else None)"
proof (induction ts arbitrary: x)
  case Nil
  show ?case by (simp split: option.splits)
next
  case (Cons t ts)
  show ?case
    by (cases "x src"; cases "x t"; cases "x k") (auto simp: Cons.IH split: option.splits)
qed

lemma duplicate_targets_keeps: "x k = Some v \<Longrightarrow> duplicate_targets src ts x k = Some v"
  by (simp add: duplicate_targets_apply)

lemma duplicate_targets_other: "k \<notin> set ts \<Longrightarrow> duplicate_targets src ts x k = x k"
  by (simp add: duplicate_targets_apply split: option.splits)

lemma duplicate_fields_keeps: "x k = Some v \<Longrightarrow> duplicate_fields rules x k = Some v"
  by (induction rules x rule: duplicate_fields.induct) (auto simp: duplicate_targets_keeps)

lemma duplicate_fields_other:
  "k \<notin> rule_targets rules \<Longrightarrow> duplicate_fields rules x k = x k"
  by (induction rules x rule: duplicate_fields.induct)
     (auto simp: duplicate_targets_other rule_targets_def)

lemma duplicate_targets_saturated:
  "x src \<noteq> None \<longrightarrow> (\<forall>t \<in> set ts. x t \<noteq> None) \<Longrightarrow> duplicate_targets src ts x = x"
  by (rule ext) (auto simp: duplicate_targets_apply split: option.splits)

lemma duplicate_fields_saturated: "saturated rules x \<Longrightarrow> duplicate_fields rules x = x"
proof (induction rules x rule: duplicate_fields.induct)
  case (1 x)
  show ?case by simp
next
  case (2 src targets rules x)
  from "2.prems" have here: "x src \<noteq> None \<longrightarrow> (\<forall>t \<in> set targets. x t \<noteq> None)"
    by (auto simp: saturated_def)
  from "2.prems" have rest: "saturated rules x"
    by (auto simp: saturated_def)
  show ?case
    using "2.IH" rest by (simp add: duplicate_targets_saturated [OF here])
qed

lemma duplicate_fields_makes_saturated:
  "rule_sources rules \<inter> rule_targets rules = {} \<Longrightarrow> saturated rules (duplicate_fields rules x)"
proof (induction rules x rule: duplicate_fields.induct)
  case (1 x)
  show ?case by (simp add: saturated_def)
next
  case (2 src targets rules x)
  let ?y = "duplicate_targets src targets x"
  have disj: "rule_sources rules \<inter> rule_targets rules = {}"
    using "2.prems" by (auto simp: rule_sources_def rule_targets_def)
  have src_out: "src \<notin> rule_targets rules" "src \<notin> set targets"
    using "2.prems" by (auto simp: rule_sources_def rule_targets_def)
  have rest: "saturated rules (duplicate_fields rules ?y)"
    using "2.IH" disj by simp
  have here: "\<forall>t \<in> set targets. duplicate_fields rules ?y t \<noteq> None"
    if "duplicate_fields rules ?y src \<noteq> None"
  proof
    fix t assume t: "t \<in> set targets"
    from that have "x src \<noteq> None"
      using src_out by (simp add: duplicate_fields_other duplicate_targets_other)
    then have "?y t \<noteq> None"
      using t by (auto simp: duplicate_targets_apply split: option.splits)
    then show "duplicate_fields rules ?y t \<noteq> None"
      using duplicate_fields_keeps [of ?y t] by auto
  qed
  show ?case
    using rest here by (auto simp: saturated_def)
qed

lemma saturated_update:
  "saturated rules x \<Longrightarrow> k \<notin> rule_sources rules \<Longrightarrow> saturated rules (x(k \<mapsto> v))"
proof -
  assume sat: "saturated rules x" and k: "k \<notin> rule_sources rules"
  have "(x(k \<mapsto> v)) t \<noteq> None"
    if "(s, ts) \<in> set rules" "(x(k \<mapsto> v)) s \<noteq> None" "t \<in> set ts" for s ts t
  proof -
    from that(1) k have "s \<noteq> k"
      by (force simp: rule_sources_def)
    with that(2) have "x s \<noteq> None" by simp
    with sat that(1,3) have "x t \<noteq> None"
      by (auto simp: saturated_def)
    then show ?thesis by simp
  qed
  then show ?thesis
    unfolding saturated_def by blast
qed

lemma get_repo_download_url_cong:
  "m' ''RepoUrl'' = m ''RepoUrl'' \<Longrightarrow> m' ''InternalName'' = m ''InternalName'' \<Longrightarrow>
   get_repo_download_url w m' = get_repo_download_url w m"
  unfolding get_repo_download_url_def get_default_def by presburger

lemma install_link_again:
  assumes "install_link cfg w g pn r m = Inr a"
    and "m' ''_repository_asset_url'' = m ''_repository_asset_url''"
    and "m' ''RepoUrl'' = m ''RepoUrl''"
    and "m' ''_repository_token_name'' = m ''_repository_token_name''"
    and "m' ''InternalName'' = m ''InternalName''"
  shows "install_link cfg w g pn r m' = Inr m' \<or>
         (\<exists>v. a ''DownloadLinkInstall'' = Some v \<and>
              install_link cfg w g pn r m' = Inr (m'(''DownloadLinkInstall'' \<mapsto> v)))"
proof (cases "m ''_repository_asset_url''")
  case None
  show ?thesis
  proof (cases "py_truthy r")
    case True
    with None assms(1,2) get_repo_download_url_cong [OF assms(3) assms(5), of w] show ?thesis
      by (auto simp: install_link_def split: option.splits)
  next
    case False
    with None assms(1,2) show ?thesis
      by (cases g) (auto simp: install_link_def split: option.splits)
  qed
next
  case (Some u)
  have same: "get_default m' ''RepoUrl'' d = get_default m ''RepoUrl'' d"
    "get_none m' ''_repository_token_name'' = get_none m ''_repository_token_name''" for d
    by (simp_all add: get_default_def get_none_def assms(3,4))
  from Some assms(1) show ?thesis
    unfolding install_link_def assms(2) same Let_def
    by (auto split: option.splits jvalue.splits if_splits)
qed

lemma install_link_frame:
  "install_link cfg w g pn r m = Inr a \<Longrightarrow> k \<noteq> ''DownloadLinkInstall'' \<Longrightarrow> a k = m k"
  by (auto simp: install_link_def get_default_def get_none_def Let_def
      split: option.splits jvalue.splits if_splits)

lemma testing_link_again:
  assumes "testing_link cfg g pn m = Inr b"
    and "m ''TestingAssemblyVersion'' = None \<or> m ''_testing_download_url'' = None \<or> g"
    and "m' ''TestingAssemblyVersion'' = m ''TestingAssemblyVersion''"
    and "m' ''_testing_download_url'' = m ''_testing_download_url''"
  shows "testing_link cfg g pn m' = Inr m' \<or>
         (\<exists>v. b ''DownloadLinkTesting'' = Some v \<and>
              testing_link cfg g pn m' = Inr (m'(''DownloadLinkTesting'' \<mapsto> v)))"
  using assms(1,2)
  by (auto simp: testing_link_def assms(3,4) split: option.splits if_splits)

lemma testing_link_frame:
  "testing_link cfg g pn m = Inr b \<Longrightarrow>
   m ''TestingAssemblyVersion'' = None \<or> m ''_testing_download_url'' = None \<or> g \<Longrightarrow>
   k \<noteq> ''DownloadLinkTesting'' \<Longrightarrow> b k = m k"
  by (auto simp: testing_link_def split: option.splits if_splits)

lemma icon_fallback_frame: "k \<noteq> ''IconUrl'' \<Longrightarrow> icon_fallback cfg w pn x k = x k"
  by (simp add: icon_fallback_def)

lemma icon_fallback_saturated:
  "saturated rules x \<Longrightarrow> ''IconUrl'' \<notin> rule_sources rules \<Longrightarrow>
   saturated rules (icon_fallback cfg w pn x)"
  by (simp add: icon_fallback_def saturated_update)

lemma icon_fallback_again:
  "icon_fallback cfg w pn ((icon_fallback cfg w pn x)(''DownloadCount'' \<mapsto> v)) =
   (icon_fallback cfg w pn x)(''DownloadCount'' \<mapsto> v)"
  by (auto simp: icon_fallback_def split: option.splits)

text \<open>
  C2, as amended. When the step returns normally, the duplication rules are stable and
  the manifest is not one whose resolved testing URL the step consumes, applying the step
  to its own result returns that result unchanged.
\<close>

theorem add_download_links_idempotent:
  assumes run: "add_download_links cfg w m = Inr m1"
    and rules: "stable_rules (field_duplicates cfg)"
    and nc: "\<not> consumes_testing_url cfg m"
  shows "add_download_links cfg w m1 = Inr m1"
proof -
  let ?rules = "field_duplicates cfg"
  from run obtain name pn where Name: "m ''Name'' = Some (JStr name)"
    and IN: "m ''InternalName'' = Some pn"
    by (auto simp: add_download_links_def Let_def split: option.splits jvalue.splits)
  define g where "g = endswith name (api_suffix cfg)"
  define r where "r = get_default m ''_repository_source'' (JBool False)"
  from run Name IN obtain a b where S1: "install_link cfg w g pn r m = Inr a"
    and S2: "testing_link cfg g pn a = Inr b"
    and m1: "m1 = (icon_fallback cfg w pn (duplicate_fields ?rules b))(''DownloadCount'' \<mapsto> JInt 0)"
    by (auto simp: add_download_links_def bind_err_def Let_def g_def r_def split: sum.splits)
  define c where "c = duplicate_fields ?rules b"
  define d where "d = icon_fallback cfg w pn c"
  have m1d: "m1 = d(''DownloadCount'' \<mapsto> JInt 0)"
    by (simp add: m1 c_def d_def)
  have targets: "rule_targets ?rules \<inter> link_inputs = {}"
    and disj: "rule_sources ?rules \<inter> rule_targets ?rules = {}"
    and src: "''IconUrl'' \<notin> rule_sources ?rules" "''DownloadCount'' \<notin> rule_sources ?rules"
    using rules by (auto simp: stable_rules_def)
  have am: "a k = m k" if "k \<noteq> ''DownloadLinkInstall''" for k
    using install_link_frame [OF S1 that] .
  have nc': "a ''TestingAssemblyVersion'' = None \<or> a ''_testing_download_url'' = None \<or> g"
    using nc Name by (auto simp: consumes_testing_url_def am get_none_def get_default_def
        py_str_def g_def)
  have ba: "b k = a k" if "k \<noteq> ''DownloadLinkTesting''" for k
    using testing_link_frame [OF S2 nc' that] .
  have keep: "m1 k = Some v" if "b k = Some v" "k \<noteq> ''IconUrl''" "k \<noteq> ''DownloadCount''" for k v
    using that by (simp add: m1d d_def c_def icon_fallback_frame duplicate_fields_keeps)
  have input: "m1 k = m k" if "k \<in> link_inputs" for k
  proof -
    from that have ks: "k \<noteq> ''DownloadLinkInstall''" "k \<noteq> ''DownloadLinkTesting''"
      "k \<noteq> ''IconUrl''" "k \<noteq> ''DownloadCount''"
      by (auto simp: link_inputs_def)
    from that targets have "k \<notin> rule_targets ?rules" by auto
    then show ?thesis
      using ks by (simp add: m1d d_def c_def icon_fallback_frame duplicate_fields_other ba am)
  qed
  have Name1: "m1 ''Name'' = Some (JStr name)"
    using keep [of "''Name''"] Name by (simp add: ba am)
  have IN1: "m1 ''InternalName'' = Some pn"
    using keep [of "''InternalName''"] IN by (simp add: ba am)
  have r1: "get_default m1 ''_repository_source'' (JBool False) = r"
    using input [of "''_repository_source''"] by (simp add: r_def get_default_def link_inputs_def)
  have i1: "install_link cfg w g pn r m1 = Inr m1"
  proof -
    have "install_link cfg w g pn r m1 = Inr m1 \<or>
         (\<exists>v. a ''DownloadLinkInstall'' = Some v \<and>
              install_link cfg w g pn r m1 = Inr (m1(''DownloadLinkInstall'' \<mapsto> v)))"
      using install_link_again [OF S1, of m1] input IN1 IN
      by (simp add: link_inputs_def)
    moreover have "m1(''DownloadLinkInstall'' \<mapsto> v) = m1" if "a ''DownloadLinkInstall'' = Some v" for v
      using keep [of "''DownloadLinkInstall''" v] that by (simp add: ba map_upd_triv)
    ultimately show ?thesis by auto
  qed
  have t1: "testing_link cfg g pn m1 = Inr m1"
  proof -
    have "testing_link cfg g pn m1 = Inr m1 \<or>
         (\<exists>v. b ''DownloadLinkTesting'' = Some v \<and>
              testing_link cfg g pn m1 = Inr (m1(''DownloadLinkTesting'' \<mapsto> v)))"
      using testing_link_again [OF S2 nc', of m1] input
      by (simp add: link_inputs_def am)
    moreover have "m1(''DownloadLinkTesting'' \<mapsto> v) = m1" if "b ''DownloadLinkTesting'' = Some v" for v
      using keep [of "''DownloadLinkTesting''" v] that by (simp add: map_upd_triv)
    ultimately show ?thesis by auto
  qed
  have "saturated ?rules c"
    unfolding c_def using disj by (rule duplicate_fields_makes_saturated)
  then have "saturated ?rules d"
    unfolding d_def using src(1) by (rule icon_fallback_saturated)
  then have "saturated ?rules m1"
    unfolding m1d using src(2) by (rule saturated_update)
  then have d1: "duplicate_fields ?rules m1 = m1"
    by (rule duplicate_fields_saturated)
  have f1: "icon_fallback cfg w pn m1 = m1"
    unfolding m1d d_def by (rule icon_fallback_again)
  have c1: "m1(''DownloadCount'' \<mapsto> JInt 0) = m1"
    by (simp add: m1d)
  show ?thesis
    using Name1 IN1
    by (simp add: add_download_links_def bind_err_def r1 g_def [symmetric] i1 t1 d1 f1 c1)
qed

lemma show_int_13: "show_int 13 = ''13''"
  by code_simp

lemmas enrich_eval = add_download_links_def add_download_links_twice_def field_of_def bind_err_def
  install_link_def testing_link_def icon_fallback_def api_suffix_def load_default_def
  get_default_def get_none_def endswith_def show_int_13 format_template_def py_str_def base_url_def
  replace_def rstrip_slash_def example_config_def example_chained_config_def example_world_def
  example_repo_manifest_def example_local_manifest_def

theorem add_download_links_idempotent_witness:
  "add_download_links example_config example_world example_local_manifest =
     Inr (example_local_manifest
           (''DownloadLinkInstall'' \<mapsto>
              JStr ''https://github.com/WigglyMuffin/DalamudPlugins/raw/main/plugins/Bar/latest.zip'',
            ''DownloadLinkTesting'' \<mapsto>
              JStr ''https://github.com/WigglyMuffin/DalamudPlugins/raw/main/plugins/Bar/testing/latest.zip'',
            ''DownloadLinkUpdate'' \<mapsto>
              JStr ''https://github.com/WigglyMuffin/DalamudPlugins/raw/main/plugins/Bar/latest.zip'',
            ''DownloadCount'' \<mapsto> JInt 0)) \<and>
   stable_rules (field_duplicates example_config) \<and>
   \<not> consumes_testing_url example_config example_local_manifest \<and>
   add_download_links example_config example_world
     (example_local_manifest
           (''DownloadLinkInstall'' \<mapsto>
              JStr ''https://github.com/WigglyMuffin/DalamudPlugins/raw/main/plugins/Bar/latest.zip'',
            ''DownloadLinkTesting'' \<mapsto>
              JStr ''https://github.com/WigglyMuffin/DalamudPlugins/raw/main/plugins/Bar/testing/latest.zip'',
            ''DownloadLinkUpdate'' \<mapsto>
              JStr ''https://github.com/WigglyMuffin/DalamudPlugins/raw/main/plugins/Bar/latest.zip'',
            ''DownloadCount'' \<mapsto> JInt 0)) =
     Inr (example_local_manifest
           (''DownloadLinkInstall'' \<mapsto>
              JStr ''https://github.com/WigglyMuffin/DalamudPlugins/raw/main/plugins/Bar/latest.zip'',
            ''DownloadLinkTesting'' \<mapsto>
              JStr ''https://github.com/WigglyMuffin/DalamudPlugins/raw/main/plugins/Bar/testing/latest.zip'',
            ''DownloadLinkUpdate'' \<mapsto>
              JStr ''https://github.com/WigglyMuffin/DalamudPlugins/raw/main/plugins/Bar/latest.zip'',
            ''DownloadCount'' \<mapsto> JInt 0))"
proof -
  let ?m1 = "example_local_manifest
           (''DownloadLinkInstall'' \<mapsto>
              JStr ''https://github.com/WigglyMuffin/DalamudPlugins/raw/main/plugins/Bar/latest.zip'',
            ''DownloadLinkTesting'' \<mapsto>
              JStr ''https://github.com/WigglyMuffin/DalamudPlugins/raw/main/plugins/Bar/testing/latest.zip'',
            ''DownloadLinkUpdate'' \<mapsto>
              JStr ''https://github.com/WigglyMuffin/DalamudPlugins/raw/main/plugins/Bar/latest.zip'',
            ''DownloadCount'' \<mapsto> JInt 0)"
  have run: "add_download_links example_config example_world example_local_manifest = Inr ?m1"
    by (simp add: enrich_eval)
  have rules: "stable_rules (field_duplicates example_config)"
    by (simp add: stable_rules_def rule_sources_def rule_targets_def link_inputs_def
        example_config_def load_default_def)
  have nc: "\<not> consumes_testing_url example_config example_local_manifest"
    by (simp add: consumes_testing_url_def example_local_manifest_def)
  show ?thesis
    using run rules nc add_download_links_idempotent [OF run rules nc] by simp
qed

text \<open>
  The step is not idempotent in general. A manifest with a TestingAssemblyVersion and a
  resolved testing URL gets that URL as its testing link the first time and the formatted
  testing template the second time, the resolved URL having been removed by the first
  application. With chained duplication rules the second application copies a field
  that the first one had only just created.
\<close>

theorem add_download_links_not_idempotent:
  "field_of (add_download_links example_config example_world example_repo_manifest)
       ''DownloadLinkTesting''
     = Inr (Some (JStr ''https://github.com/o/r/releases/download/v2.0.0/latest.zip'')) \<and>
   field_of (add_download_links_twice example_config example_world example_repo_manifest)
       ''DownloadLinkTesting''
     = Inr (Some (JStr
         ''https://github.com/WigglyMuffin/DalamudPlugins/raw/main/plugins/Foo/testing/latest.zip'')) \<and>
   add_download_links_twice example_config example_world example_repo_manifest
     \<noteq> add_download_links example_config example_world example_repo_manifest \<and>
   field_of (add_download_links example_chained_config example_world example_local_manifest)
       ''Mirror'' = Inr None \<and>
   field_of (add_download_links_twice example_chained_config example_world example_local_manifest)
       ''Mirror''
     = Inr (Some (JStr
         ''https://github.com/WigglyMuffin/DalamudPlugins/raw/main/plugins/Bar/latest.zip'')) \<and>
   add_download_links_twice example_chained_config example_world example_local_manifest
     \<noteq> add_download_links example_chained_config example_world example_local_manifest"
proof -
  have a: "field_of (add_download_links example_config example_world example_repo_manifest)
       ''DownloadLinkTesting''
     = Inr (Some (JStr ''https://github.com/o/r/releases/download/v2.0.0/latest.zip''))"
    by (simp add: enrich_eval)
  have b: "field_of (add_download_links_twice example_config example_world example_repo_manifest)
       ''DownloadLinkTesting''
     = Inr (Some (JStr
         ''https://github.com/WigglyMuffin/DalamudPlugins/raw/main/plugins/Foo/testing/latest.zip''))"
    by (simp add: enrich_eval)
  have c: "field_of (add_download_links example_chained_config example_world example_local_manifest)
       ''Mirror'' = Inr None"
    by (simp add: enrich_eval)
  have d: "field_of (add_download_links_twice example_chained_config example_world example_local_manifest)
       ''Mirror''
     = Inr (Some (JStr
         ''https://github.com/WigglyMuffin/DalamudPlugins/raw/main/plugins/Bar/latest.zip''))"
    by (simp add: enrich_eval)
  from a b have e: "add_download_links_twice example_config example_world example_repo_manifest
     \<noteq> add_download_links example_config example_world example_repo_manifest"
    by auto
  from c d have f: "add_download_links_twice example_chained_config example_world example_local_manifest
     \<noteq> add_download_links example_chained_config example_world example_local_manifest"
    by auto
  from a b c d e f show ?thesis by blast
qed

section \<open>Properties of the write pass\<close>

lemma write_outputs_frame:
  "p \<notin> snd ` set outs \<Longrightarrow> fst (write_outputs outs g (fs, cur)) p = fs p"
  by (induction outs arbitrary: fs cur) (auto split: if_splits)

lemma write_outputs_current:
  "snd (write_outputs outs g (fs, cur)) =
     cur \<union> {p. \<exists>n. (n, p) \<in> set outs \<and> \<not> skipped g n}"
  by (induction outs arbitrary: fs cur) (auto simp: skipped_def split: if_splits)

lemma write_outputs_state:
  "p \<in> snd ` set outs \<Longrightarrow>
   fst (write_outputs outs g (fs, cur)) p = None \<or>
   (\<exists>n. (n, p) \<in> set outs \<and> \<not> skipped g n \<and>
        fst (write_outputs outs g (fs, cur)) p = Some (Catalog (g n)))"
proof (induction outs arbitrary: fs cur)
  case Nil
  then show ?case by simp
next
  case (Cons a outs)
  obtain n0 p0 where a: "a = (n0, p0)" by (cases a)
  show ?case
  proof (cases "p \<in> snd ` set outs")
    case True
    from Cons.IH [OF True] show ?thesis
      by (auto simp: a)
  next
    case False
    with Cons.prems a have p: "p = p0" by auto
    show ?thesis
      using False by (auto simp: a p write_outputs_frame skipped_def)
  qed
qed

lemma write_outputs_skipped:
  "\<forall>n. (n, p) \<in> set outs \<longrightarrow> skipped g n \<Longrightarrow> p \<in> snd ` set outs \<Longrightarrow>
   fst (write_outputs outs g (fs, cur)) p = None"
  using write_outputs_state [of p outs g fs cur] by auto

lemma write_outputs_written:
  "distinct (map snd outs) \<Longrightarrow> (n, p) \<in> set outs \<Longrightarrow> \<not> skipped g n \<Longrightarrow>
   fst (write_outputs outs g (fs, cur)) p = Some (Catalog (g n))"
proof (induction outs arbitrary: fs cur)
  case Nil
  then show ?case by simp
next
  case (Cons a outs)
  obtain n0 p0 where a: "a = (n0, p0)" by (cases a)
  show ?case
  proof (cases "(n, p) = a")
    case True
    with Cons.prems a have "p \<notin> snd ` set outs" "n0 = n" "p0 = p"
      by auto
    with Cons.prems(3) show ?thesis
      by (simp add: a write_outputs_frame skipped_def)
  next
    case False
    with Cons.prems have "(n, p) \<in> set outs" "distinct (map snd outs)"
      by auto
    from Cons.IH [OF this(2) this(1) Cons.prems(3)] show ?thesis
      by (simp add: a)
  qed
qed

lemma destinations_return:
  "\<forall>m \<in> set ms. routable m \<Longrightarrow> \<exists>ds. map_err (destination cfg) ms = Inr ds"
proof (induction ms)
  case Nil
  show ?case by simp
next
  case (Cons m ms)
  then obtain ds where "map_err (destination cfg) ms = Inr ds" by auto
  moreover from Cons.prems have "\<exists>d. destination cfg m = Inr d"
    by (auto simp: routable_def hashable_def destination_def split: jvalue.splits)
  ultimately show ?case by auto
qed

lemma write_plugin_master_result:
  assumes "\<forall>m \<in> set ms. routable m"
  shows "write_plugin_master cfg ms final fs =
           Inr (let st = write_outputs (output_files cfg) (grouped cfg final ms) (fs, {})
                in (if final then cleanup_stale_outputs (snd st) (fst st) else fst st, snd st))"
proof -
  from destinations_return [OF assms] obtain ds where "map_err (destination cfg) ms = Inr ds" ..
  then show ?thesis
    by (simp add: write_plugin_master_def Let_def split: prod.splits)
qed

lemma grouped_empty:
  "\<forall>m \<in> set ms. destination cfg m \<noteq> Inr n \<Longrightarrow> grouped cfg final ms n = []"
  by (simp add: grouped_def filter_empty_conv)

text \<open>
  C6, as amended. A configured destination other than \<^verbatim>\<open>default\<close> whose group is empty
  and whose file is not also the file of another destination has no file after the
  write pass, final or not: nothing is written for it and a file left by a previous
  run is deleted.
\<close>

theorem empty_destination_not_written:
  assumes "\<forall>m \<in> set manifests. routable m"
    and "(output_name, output_path) \<in> set (output_files cfg)"
    and "output_name \<noteq> ''default''"
    and "\<forall>m \<in> set manifests. destination cfg m \<noteq> Inr output_name"
    and "\<forall>n. (n, output_path) \<in> set (output_files cfg) \<longrightarrow> n = output_name"
  shows "\<exists>fs' current. write_plugin_master cfg manifests final fs = Inr (fs', current) \<and>
           fs' output_path = None \<and> output_path \<notin> current"
proof -
  let ?g = "grouped cfg final manifests"
  let ?st = "write_outputs (output_files cfg) ?g (fs, {})"
  have skip: "skipped ?g output_name"
    using assms(3,4) by (simp add: skipped_def grouped_empty)
  with assms(5) have all: "\<forall>n. (n, output_path) \<in> set (output_files cfg) \<longrightarrow> skipped ?g n"
    by auto
  have inp: "output_path \<in> snd ` set (output_files cfg)"
    using assms(2) by force
  have gone: "fst ?st output_path = None"
    using write_outputs_skipped [OF all inp] .
  have notin: "output_path \<notin> snd ?st"
    using all by (auto simp: write_outputs_current)
  have "write_plugin_master cfg manifests final fs =
          Inr (if final then cleanup_stale_outputs (snd ?st) (fst ?st) else fst ?st, snd ?st)"
    by (simp add: write_plugin_master_result [OF assms(1)] Let_def)
  moreover have "(if final then cleanup_stale_outputs (snd ?st) (fst ?st) else fst ?st)
                   output_path = None"
    using gone by (cases final) (simp_all add: cleanup_stale_outputs_def)
  ultimately show ?thesis
    using notin by blast
qed

text \<open>
  C10. The final write pass returns, the paths it wrote are exactly the files of the
  destinations that are named \<^verbatim>\<open>default\<close> or have a manifest, and afterwards no file
  \<^verbatim>\<open>*.json\<close> of the working directory exists other than those and
  \<^verbatim>\<open>plugin-sources.json\<close>, whatever the file held and also when it is the file of a
  configured destination that was skipped. Files that are not \<^verbatim>\<open>*.json\<close> files of the
  working directory and are no configured output are left as they were.
\<close>

theorem cleanup_deletes_every_unwritten_json:
  assumes "\<forall>m \<in> set manifests. routable m"
  shows "\<exists>fs' current. write_plugin_master cfg manifests True fs = Inr (fs', current) \<and>
           current = {p. \<exists>n. (n, p) \<in> set (output_files cfg) \<and>
                              (grouped cfg True manifests n \<noteq> [] \<or> n = ''default'')} \<and>
           (\<forall>p. is_glob_json p \<and> p \<notin> current \<and> p \<noteq> ''plugin-sources.json''
                 \<longrightarrow> fs' p = None) \<and>
           (\<forall>p. (\<not> is_glob_json p \<or> p = ''plugin-sources.json'')
                 \<and> p \<notin> snd ` set (output_files cfg) \<longrightarrow> fs' p = fs p)"
proof -
  let ?g = "grouped cfg True manifests"
  let ?st = "write_outputs (output_files cfg) ?g (fs, {})"
  let ?fs' = "cleanup_stale_outputs (snd ?st) (fst ?st)"
  have res: "write_plugin_master cfg manifests True fs = Inr (?fs', snd ?st)"
    by (simp add: write_plugin_master_result [OF assms] Let_def)
  have cur: "snd ?st = {p. \<exists>n. (n, p) \<in> set (output_files cfg) \<and> (?g n \<noteq> [] \<or> n = ''default'')}"
    by (auto simp: write_outputs_current skipped_def)
  have del: "?fs' p = None"
    if "is_glob_json p \<and> p \<notin> snd ?st \<and> p \<noteq> ''plugin-sources.json''" for p
    using that by (simp add: cleanup_stale_outputs_def)
  have keep: "?fs' p = fs p"
    if "(\<not> is_glob_json p \<or> p = ''plugin-sources.json'') \<and> p \<notin> snd ` set (output_files cfg)"
    for p
    using that by (auto simp: cleanup_stale_outputs_def write_outputs_frame)
  show ?thesis
  proof (intro exI conjI)
    show "write_plugin_master cfg manifests True fs = Inr (?fs', snd ?st)"
      by (rule res)
    show "snd ?st = {p. \<exists>n. (n, p) \<in> set (output_files cfg) \<and> (?g n \<noteq> [] \<or> n = ''default'')}"
      by (rule cur)
    show "\<forall>p. is_glob_json p \<and> p \<notin> snd ?st \<and> p \<noteq> ''plugin-sources.json'' \<longrightarrow> ?fs' p = None"
      using del by blast
    show "\<forall>p. (\<not> is_glob_json p \<or> p = ''plugin-sources.json'')
              \<and> p \<notin> snd ` set (output_files cfg) \<longrightarrow> ?fs' p = fs p"
      using keep by blast
  qed
qed

text \<open>
  C7, as amended. After the final write pass every \<^verbatim>\<open>*.json\<close> file of the working
  directory other than \<^verbatim>\<open>plugin-sources.json\<close> is the file of a configured destination
  and holds the records of that destination; when the configured files are pairwise
  different, the file of every destination that is named \<^verbatim>\<open>default\<close> or has a manifest
  exists with the records of that destination. The pass that is not final removes no
  file that is not a configured output, and the records it writes are the manifests as
  they are, routing tag included.
\<close>

theorem final_write_catalogs:
  assumes "\<forall>m \<in> set manifests. routable m"
  shows "(\<exists>fs' current. write_plugin_master cfg manifests True fs = Inr (fs', current) \<and>
            (\<forall>p. is_glob_json p \<and> p \<noteq> ''plugin-sources.json'' \<and> fs' p \<noteq> None \<longrightarrow>
                 (\<exists>n. (n, p) \<in> set (output_files cfg) \<and>
                      fs' p = Some (Catalog (grouped cfg True manifests n)))) \<and>
            (distinct (map snd (output_files cfg)) \<longrightarrow>
               (\<forall>n p. (n, p) \<in> set (output_files cfg) \<and>
                      (grouped cfg True manifests n \<noteq> [] \<or> n = ''default'') \<longrightarrow>
                      fs' p = Some (Catalog (grouped cfg True manifests n))))) \<and>
         (\<exists>fs0 current0. write_plugin_master cfg manifests False fs = Inr (fs0, current0) \<and>
            (\<forall>p. p \<notin> snd ` set (output_files cfg) \<longrightarrow> fs0 p = fs p) \<and>
            (\<forall>p recs. p \<in> snd ` set (output_files cfg) \<and> fs0 p = Some (Catalog recs) \<longrightarrow>
                      set recs \<subseteq> set manifests))"
proof -
  let ?outs = "output_files cfg"
  let ?g = "grouped cfg True manifests"
  let ?st = "write_outputs ?outs ?g (fs, {})"
  let ?fs' = "cleanup_stale_outputs (snd ?st) (fst ?st)"
  have res: "write_plugin_master cfg manifests True fs = Inr (?fs', snd ?st)"
    by (simp add: write_plugin_master_result [OF assms] Let_def)
  have a: "\<exists>n. (n, p) \<in> set ?outs \<and> ?fs' p = Some (Catalog (?g n))"
    if "is_glob_json p" "p \<noteq> ''plugin-sources.json''" "?fs' p \<noteq> None" for p
  proof -
    from that have cur: "p \<in> snd ?st" and ex: "fst ?st p \<noteq> None"
      by (auto simp: cleanup_stale_outputs_def split: if_splits)
    from cur have "p \<in> snd ` set ?outs"
      by (force simp: write_outputs_current)
    from write_outputs_state [OF this, of ?g fs "{}"] ex
    obtain n where "(n, p) \<in> set ?outs" "fst ?st p = Some (Catalog (?g n))"
      by auto
    with cur show ?thesis
      by (auto simp: cleanup_stale_outputs_def)
  qed
  have b: "?fs' p = Some (Catalog (?g n))"
    if "distinct (map snd ?outs)" "(n, p) \<in> set ?outs" "?g n \<noteq> [] \<or> n = ''default''" for n p
  proof -
    from that(3) have ns: "\<not> skipped ?g n"
      by (auto simp: skipped_def)
    from write_outputs_written [OF that(1,2) ns]
    have "fst ?st p = Some (Catalog (?g n))" .
    moreover from that(2) ns have "p \<in> snd ?st"
      by (auto simp: write_outputs_current)
    ultimately show ?thesis
      by (simp add: cleanup_stale_outputs_def)
  qed
  let ?ng = "grouped cfg False manifests"
  let ?nst = "write_outputs ?outs ?ng (fs, {})"
  have res0: "write_plugin_master cfg manifests False fs = Inr (fst ?nst, snd ?nst)"
    by (simp add: write_plugin_master_result [OF assms] Let_def)
  have c: "fst ?nst p = fs p" if "p \<notin> snd ` set ?outs" for p
    using that by (rule write_outputs_frame)
  have d: "set recs \<subseteq> set manifests"
    if "p \<in> snd ` set ?outs" "fst ?nst p = Some (Catalog recs)" for p recs
  proof -
    from write_outputs_state [OF that(1), of ?ng fs "{}"] that(2)
    obtain n where "recs = ?ng n" by auto
    then show ?thesis
      by (auto simp: grouped_def clean_def)
  qed
  have final: "\<exists>fs' current. write_plugin_master cfg manifests True fs = Inr (fs', current) \<and>
            (\<forall>p. is_glob_json p \<and> p \<noteq> ''plugin-sources.json'' \<and> fs' p \<noteq> None \<longrightarrow>
                 (\<exists>n. (n, p) \<in> set (output_files cfg) \<and>
                      fs' p = Some (Catalog (grouped cfg True manifests n)))) \<and>
            (distinct (map snd (output_files cfg)) \<longrightarrow>
               (\<forall>n p. (n, p) \<in> set (output_files cfg) \<and>
                      (grouped cfg True manifests n \<noteq> [] \<or> n = ''default'') \<longrightarrow>
                      fs' p = Some (Catalog (grouped cfg True manifests n))))"
  proof (intro exI conjI)
    show "write_plugin_master cfg manifests True fs = Inr (?fs', snd ?st)"
      by (rule res)
    show "\<forall>p. is_glob_json p \<and> p \<noteq> ''plugin-sources.json'' \<and> ?fs' p \<noteq> None \<longrightarrow>
                 (\<exists>n. (n, p) \<in> set (output_files cfg) \<and> ?fs' p = Some (Catalog (?g n)))"
      using a by blast
    show "distinct (map snd (output_files cfg)) \<longrightarrow>
               (\<forall>n p. (n, p) \<in> set (output_files cfg) \<and> (?g n \<noteq> [] \<or> n = ''default'') \<longrightarrow>
                      ?fs' p = Some (Catalog (?g n)))"
      using b by blast
  qed
  have nonfinal: "\<exists>fs0 current0. write_plugin_master cfg manifests False fs = Inr (fs0, current0) \<and>
            (\<forall>p. p \<notin> snd ` set (output_files cfg) \<longrightarrow> fs0 p = fs p) \<and>
            (\<forall>p recs. p \<in> snd ` set (output_files cfg) \<and> fs0 p = Some (Catalog recs) \<longrightarrow>
                      set recs \<subseteq> set manifests)"
  proof (intro exI conjI)
    show "write_plugin_master cfg manifests False fs = Inr (fst ?nst, snd ?nst)"
      by (rule res0)
    show "\<forall>p. p \<notin> snd ` set (output_files cfg) \<longrightarrow> fst ?nst p = fs p"
      using c by blast
    show "\<forall>p recs. p \<in> snd ` set (output_files cfg) \<and> fst ?nst p = Some (Catalog recs) \<longrightarrow>
                      set recs \<subseteq> set manifests"
      using d by blast
  qed
  from final nonfinal show ?thesis ..
qed

lemmas write_eval = write_plugin_master_def file_after_def destination_def grouped_def clean_def
  cleanup_stale_outputs_def is_glob_json_def endswith_def get_default_def load_default_def
  example_config_def example_two_outputs_def example_for_A_def example_for_B_def example_disk_def

text \<open>
  The destination named \<^verbatim>\<open>default\<close> is written even when no manifest is routed to it.
\<close>

theorem default_destination_written_when_empty:
  "file_after (write_plugin_master example_config [] True Map.empty) ''pluginmaster.json''
     = Inr (Some (Catalog []))"
  by (simp add: write_eval)

text \<open>
  With the destinations \<^verbatim>\<open>A\<close> and \<^verbatim>\<open>B\<close> configured and a manifest for \<^verbatim>\<open>A\<close> only, the
  final write removes the stale \<^verbatim>\<open>c.json\<close> and writes \<^verbatim>\<open>a.json\<close>, but the file of \<^verbatim>\<open>B\<close>
  does not exist afterwards, and a stale catalog in a subdirectory stays.
\<close>

theorem configured_destination_file_missing_after_final_write:
  "file_after (write_plugin_master example_two_outputs [example_for_A] True example_disk) ''c.json''
     = Inr None \<and>
   file_after (write_plugin_master example_two_outputs [example_for_A] True example_disk) ''a.json''
     = Inr (Some (Catalog [[''InternalName'' \<mapsto> JStr ''P'']])) \<and>
   file_after (write_plugin_master example_two_outputs [example_for_A] True example_disk) ''b.json''
     = Inr None \<and>
   file_after (write_plugin_master example_two_outputs [example_for_A] True example_disk)
     ''feeds/old.json'' = Inr (Some (Catalog []))"
  by (simp add: write_eval)

theorem empty_destination_not_written_witness:
  "routable example_for_A \<and>
   (''B'', ''b.json'') \<in> set (output_files example_two_outputs) \<and>
   ''B'' \<noteq> ''default'' \<and>
   destination example_two_outputs example_for_A = Inr ''A'' \<and>
   filter (\<lambda>e. snd e = ''b.json'') (output_files example_two_outputs) = [(''B'', ''b.json'')] \<and>
   example_disk ''b.json'' = Some (Catalog []) \<and>
   file_after (write_plugin_master example_two_outputs [example_for_A] True example_disk) ''b.json''
     = Inr None \<and>
   file_after (write_plugin_master example_two_outputs [example_for_A] False example_disk) ''b.json''
     = Inr None"
proof -
  have r: "routable example_for_A"
    by (simp add: routable_def hashable_def get_default_def example_for_A_def)
  then have h1: "\<forall>m \<in> set [example_for_A]. routable m"
    by simp
  have h2: "(''B'', ''b.json'') \<in> set (output_files example_two_outputs)"
    by (simp add: example_two_outputs_def load_default_def)
  have h3: "''B'' \<noteq> ''default''" by simp
  have d: "destination example_two_outputs example_for_A = Inr ''A''"
    by (simp add: write_eval)
  then have h4: "\<forall>m \<in> set [example_for_A]. destination example_two_outputs m \<noteq> Inr ''B''"
    by simp
  have f: "filter (\<lambda>e. snd e = ''b.json'') (output_files example_two_outputs) = [(''B'', ''b.json'')]"
    by (simp add: example_two_outputs_def load_default_def)
  have h5: "\<forall>n. (n, ''b.json'') \<in> set (output_files example_two_outputs) \<longrightarrow> n = ''B''"
    by (simp add: example_two_outputs_def load_default_def)
  have disk: "example_disk ''b.json'' = Some (Catalog [])"
    by (simp add: example_disk_def)
  have "file_after (write_plugin_master example_two_outputs [example_for_A] final example_disk)
          ''b.json'' = Inr None" for final
    using empty_destination_not_written [OF h1 h2 h3 h4 h5, of final example_disk]
    by (auto simp: file_after_def)
  with r h2 h3 d f disk show ?thesis
    by blast
qed

theorem cleanup_deletes_every_unwritten_json_witness:
  "routable example_for_A \<and>
   file_after (write_plugin_master example_two_outputs [example_for_A] True example_disk) ''b.json''
     = Inr None \<and>
   file_after (write_plugin_master example_two_outputs [example_for_A] True example_disk) ''c.json''
     = Inr None \<and>
   file_after (write_plugin_master example_two_outputs [example_for_A] True example_disk)
     ''notes.json'' = Inr None \<and>
   file_after (write_plugin_master example_two_outputs [example_for_A] True example_disk)
     ''plugin-sources.json'' = Inr (Some OtherFile) \<and>
   file_after (write_plugin_master example_two_outputs [example_for_A] True example_disk)
     ''feeds/old.json'' = Inr (Some (Catalog []))"
proof -
  have r0: "routable example_for_A"
    by (simp add: routable_def hashable_def get_default_def example_for_A_def)
  then have h1: "\<forall>m \<in> set [example_for_A]. routable m"
    by simp
  have cur: "{p. \<exists>n. (n, p) \<in> set (output_files example_two_outputs) \<and>
                (grouped example_two_outputs True [example_for_A] n \<noteq> [] \<or> n = ''default'')}
             = {''a.json''}"
    by (auto simp: write_eval)
  have g: "is_glob_json ''b.json''" "is_glob_json ''c.json''" "is_glob_json ''notes.json''"
    "\<not> is_glob_json ''feeds/old.json''"
    by (simp_all add: is_glob_json_def endswith_def)
  have out: "''feeds/old.json'' \<notin> snd ` set (output_files example_two_outputs)"
    "''plugin-sources.json'' \<notin> snd ` set (output_files example_two_outputs)"
    by (simp_all add: example_two_outputs_def load_default_def)
  have disk: "example_disk ''plugin-sources.json'' = Some OtherFile"
    "example_disk ''feeds/old.json'' = Some (Catalog [])"
    by (simp_all add: example_disk_def)
  from cleanup_deletes_every_unwritten_json [OF h1, of example_two_outputs example_disk]
  obtain fs' current where
    r: "write_plugin_master example_two_outputs [example_for_A] True example_disk = Inr (fs', current)"
    and c: "current = {''a.json''}"
    and d: "\<forall>p. is_glob_json p \<and> p \<notin> current \<and> p \<noteq> ''plugin-sources.json'' \<longrightarrow> fs' p = None"
    and k: "\<forall>p. (\<not> is_glob_json p \<or> p = ''plugin-sources.json'')
                 \<and> p \<notin> snd ` set (output_files example_two_outputs) \<longrightarrow> fs' p = example_disk p"
    unfolding cur by (elim exE conjE) (rule that, assumption+)
  from d c g have "fs' ''b.json'' = None" "fs' ''c.json'' = None" "fs' ''notes.json'' = None"
    by simp_all
  moreover from k g out disk have "fs' ''plugin-sources.json'' = Some OtherFile"
    "fs' ''feeds/old.json'' = Some (Catalog [])"
    by simp_all
  ultimately show ?thesis
    using r0 by (simp add: file_after_def r)
qed

theorem final_write_catalogs_witness:
  "routable example_for_A \<and> routable example_for_B \<and>
   distinct (map snd (output_files example_two_outputs)) \<and>
   example_disk ''c.json'' = Some (Catalog []) \<and>
   file_after (write_plugin_master example_two_outputs [example_for_A, example_for_B] True
                 example_disk) ''c.json'' = Inr None \<and>
   file_after (write_plugin_master example_two_outputs [example_for_A, example_for_B] True
                 example_disk) ''a.json'' = Inr (Some (Catalog [[''InternalName'' \<mapsto> JStr ''P'']])) \<and>
   file_after (write_plugin_master example_two_outputs [example_for_A, example_for_B] True
                 example_disk) ''b.json'' = Inr (Some (Catalog [[''InternalName'' \<mapsto> JStr ''Q'']])) \<and>
   file_after (write_plugin_master example_two_outputs [example_for_A, example_for_B] False
                 example_disk) ''c.json'' = Inr (Some (Catalog []))"
proof -
  let ?ms = "[example_for_A, example_for_B]"
  have r1: "routable example_for_A" "routable example_for_B"
    by (simp_all add: routable_def hashable_def get_default_def example_for_A_def
        example_for_B_def)
  then have h1: "\<forall>m \<in> set ?ms. routable m"
    by simp
  have outs: "distinct (map snd (output_files example_two_outputs))"
    "(''A'', ''a.json'') \<in> set (output_files example_two_outputs)"
    "(''B'', ''b.json'') \<in> set (output_files example_two_outputs)"
    "\<And>n. (n, ''c.json'') \<notin> set (output_files example_two_outputs)"
    "''c.json'' \<notin> snd ` set (output_files example_two_outputs)"
    by (simp_all add: example_two_outputs_def load_default_def)
  have grp: "grouped example_two_outputs True ?ms ''A'' = [[''InternalName'' \<mapsto> JStr ''P'']]"
    "grouped example_two_outputs True ?ms ''B'' = [[''InternalName'' \<mapsto> JStr ''Q'']]"
    by (simp_all add: write_eval)
  have g: "is_glob_json ''c.json''"
    by (simp add: is_glob_json_def endswith_def)
  have disk: "example_disk ''c.json'' = Some (Catalog [])"
    by (simp add: example_disk_def)
  note inst = final_write_catalogs [OF h1, of example_two_outputs example_disk]
  from inst [THEN conjunct1] obtain fs' current where
    r: "write_plugin_master example_two_outputs ?ms True example_disk = Inr (fs', current)"
    and a: "\<forall>p. is_glob_json p \<and> p \<noteq> ''plugin-sources.json'' \<and> fs' p \<noteq> None \<longrightarrow>
              (\<exists>n. (n, p) \<in> set (output_files example_two_outputs) \<and>
                   fs' p = Some (Catalog (grouped example_two_outputs True ?ms n)))"
    and b: "distinct (map snd (output_files example_two_outputs)) \<longrightarrow>
              (\<forall>n p. (n, p) \<in> set (output_files example_two_outputs) \<and>
                 (grouped example_two_outputs True ?ms n \<noteq> [] \<or> n = ''default'') \<longrightarrow>
                 fs' p = Some (Catalog (grouped example_two_outputs True ?ms n)))"
    by (elim exE conjE) (rule that, assumption+)
  from inst [THEN conjunct2] obtain fs0 current0 where
    r0: "write_plugin_master example_two_outputs ?ms False example_disk = Inr (fs0, current0)"
    and c: "\<forall>p. p \<notin> snd ` set (output_files example_two_outputs) \<longrightarrow> fs0 p = example_disk p"
    by (elim exE conjE) (rule that, assumption+)
  have "fs' ''c.json'' = None"
  proof (rule ccontr)
    assume "fs' ''c.json'' \<noteq> None"
    with a [rule_format, of "''c.json''"] g
    have "\<exists>n. (n, ''c.json'') \<in> set (output_files example_two_outputs)"
      by auto
    with outs(4) show False by blast
  qed
  moreover from b outs(1) have b': "(n, p) \<in> set (output_files example_two_outputs) \<Longrightarrow>
      grouped example_two_outputs True ?ms n \<noteq> [] \<Longrightarrow>
      fs' p = Some (Catalog (grouped example_two_outputs True ?ms n))" for n p
    by blast
  from b' [OF outs(2)] grp(1)
  have "fs' ''a.json'' = Some (Catalog [[''InternalName'' \<mapsto> JStr ''P'']])"
    by simp
  moreover from b' [OF outs(3)] grp(2)
  have "fs' ''b.json'' = Some (Catalog [[''InternalName'' \<mapsto> JStr ''Q'']])"
    by simp
  moreover from c outs(5) disk have "fs0 ''c.json'' = Some (Catalog [])"
    by simp
  ultimately show ?thesis
    using r1 outs(1) disk by (simp add: file_after_def r r0)
qed

section \<open>Properties of the end of a run and of the collection\<close>

lemma map_err_map:
  "\<forall>x \<in> set xs. f x = Inr (g x) \<Longrightarrow> map_err f xs = Inr (map g xs)"
  by (induction xs) auto

lemma use_cached_count_result:
  "hashable (get_none m ''InternalName'') \<Longrightarrow>
   use_cached_count cache m = Inr (with_cached_count cache m)"
  by (simp add: use_cached_count_def with_cached_count_def Let_def split: option.splits)

lemma with_cached_count_frame:
  "k \<noteq> ''DownloadCount'' \<Longrightarrow> with_cached_count cache m k = m k"
  by (simp add: with_cached_count_def split: option.splits)

lemma set_local_timestamp_frame:
  "set_local_timestamp cfg src m pn = Inr m' \<Longrightarrow> k \<noteq> ''LastUpdate'' \<Longrightarrow> m' k = m k"
  by (auto simp: set_local_timestamp_def Let_def split: option.splits jvalue.splits)

lemma update_last_modified_one_frame:
  assumes "k \<noteq> ''LastUpdate''" "k \<noteq> ''_repository_source''"
  shows "update_last_modified_one cfg src m k = m k"
proof -
  have a: "(case set_local_timestamp cfg src x pn of Inl e \<Rightarrow> x | Inr m'' \<Rightarrow> m'') k = x k" for x pn
    using set_local_timestamp_frame [of cfg src x pn _ k] assms(1)
    by (cases "set_local_timestamp cfg src x pn") auto
  show ?thesis
    using assms(2) by (simp add: update_last_modified_one_def Let_def a split: option.splits)
qed

lemma tail_manifest_frame:
  "k \<notin> {''DownloadCount'', ''LastUpdate'', ''_repository_source''} \<Longrightarrow>
   tail_manifest cfg src cache m k = m k"
  by (simp add: tail_manifest_def update_last_modified_one_frame with_cached_count_frame)

lemma tail_manifest_count:
  "tail_manifest cfg src cache m ''DownloadCount'' = with_cached_count cache m ''DownloadCount''"
  by (simp add: tail_manifest_def update_last_modified_one_frame)

lemma tail_manifest_well_keyed:
  "well_keyed m \<Longrightarrow> well_keyed (tail_manifest cfg src cache m)"
  by (simp add: well_keyed_def routable_def get_none_def get_default_def tail_manifest_frame)

lemma output_routing_returns:
  "\<forall>m \<in> set ms. well_keyed m \<Longrightarrow> \<forall>v \<in> ran r0. hashable v \<Longrightarrow>
   \<exists>rt. output_routing ms r0 = Inr rt \<and> (\<forall>v \<in> ran rt. hashable v)"
proof (induction ms arbitrary: r0)
  case Nil
  then show ?case by simp
next
  case (Cons m ms)
  let ?r1 = "r0(dict_key (get_none m ''InternalName'') \<mapsto> get_default m ''_output_name'' (JStr ''default''))"
  from Cons.prems have m: "hashable (get_none m ''InternalName'')"
    "hashable (get_default m ''_output_name'' (JStr ''default''))"
    by (auto simp: well_keyed_def routable_def)
  have a: "\<forall>m \<in> set ms. well_keyed m"
    using Cons.prems(1) by simp
  have b: "\<forall>v \<in> ran ?r1. hashable v"
    using Cons.prems(2) m(2) by (auto simp: ran_def)
  from Cons.IH [OF a b] obtain rt where
    "output_routing ms ?r1 = Inr rt" "\<forall>v \<in> ran rt. hashable v"
    by blast
  with m(1) show ?case by (simp add: Let_def)
qed

lemma reattach_routable:
  "\<forall>v \<in> ran rt. hashable v \<Longrightarrow> routable (reattach rt m)"
  by (auto simp: routable_def reattach_def get_default_def hashable_def ran_def
      split: option.splits)

lemma finish_run_result:
  assumes "\<forall>m \<in> set manifests. well_keyed m"
  shows "\<exists>rt fs' written.
           finish_run cfg src cache fs manifests =
             Inr (map (\<lambda>m. reattach rt (trim_manifest cfg (tail_manifest cfg src cache m))) manifests,
                  fs', written) \<and>
           (\<exists>fs1. write_plugin_master cfg
                    (map (\<lambda>m. reattach rt (trim_manifest cfg (tail_manifest cfg src cache m))) manifests)
                    True fs1 = Inr (fs', written)) \<and>
           (\<forall>m \<in> set manifests.
              routable (reattach rt (trim_manifest cfg (tail_manifest cfg src cache m))))"
proof -
  let ?ms2 = "map (tail_manifest cfg src cache) manifests"
  have s1: "map_err (use_cached_count cache) manifests = Inr (map (with_cached_count cache) manifests)"
    using assms by (intro map_err_map) (simp add: use_cached_count_result well_keyed_def)
  have ms2: "map (update_last_modified_one cfg src) (map (with_cached_count cache) manifests) = ?ms2"
    by (simp add: tail_manifest_def)
  have wk2: "\<forall>m \<in> set ?ms2. well_keyed m"
    using assms by (simp add: tail_manifest_well_keyed)
  then have rt2: "\<forall>m \<in> set ?ms2. routable m"
    by (simp add: well_keyed_def)
  from write_plugin_master_result [OF rt2, of cfg False fs]
  obtain x1 where "write_plugin_master cfg ?ms2 False fs = Inr x1"
    by blast
  then obtain fs1 w1 where w1: "write_plugin_master cfg ?ms2 False fs = Inr (fs1, w1)"
    by (cases x1) simp
  from output_routing_returns [OF wk2, of Map.empty] obtain rt where
    rt: "output_routing ?ms2 Map.empty = Inr rt" "\<forall>v \<in> ran rt. hashable v"
    by auto
  let ?ms3 = "map (\<lambda>m. reattach rt (trim_manifest cfg (tail_manifest cfg src cache m))) manifests"
  have s3: "trim_and_route cfg ?ms2 = Inr ?ms3"
    using rt(1) by (simp add: trim_and_route_def comp_def)
  have rt3: "\<forall>m \<in> set ?ms3. routable m"
    using rt(2) by (simp add: reattach_routable)
  from write_plugin_master_result [OF rt3, of cfg True fs1]
  obtain x2 where "write_plugin_master cfg ?ms3 True fs1 = Inr x2"
    by blast
  then obtain fs2 w2 where w2: "write_plugin_master cfg ?ms3 True fs1 = Inr (fs2, w2)"
    by (cases x2) simp
  have "finish_run cfg src cache fs manifests = Inr (?ms3, fs2, w2)"
    unfolding finish_run_def by (simp add: s1 bind_err_def ms2 w1 s3 w2 del: map_map)
  with w2 rt3 show ?thesis
    by (intro exI conjI) (assumption, rule w2, simp)
qed

lemma reattached_count:
  "''DownloadCount'' \<in> set (required_manifest_keys cfg) \<Longrightarrow>
   reattach rt (trim_manifest cfg (tail_manifest cfg src cache m)) ''DownloadCount'' =
     with_cached_count cache m ''DownloadCount''"
  by (simp add: reattach_def trim_manifest_def tail_manifest_count)

text \<open>
  C5. When the identifiers and routing tags of the manifests are hashable and
  DownloadCount is a required field, the end of the run returns, and the manifest at
  every position ends with the cached counter if its counter after the live fetch is zero
  and the cache has an entry for its InternalName, and with its counter after the live
  fetch otherwise, whatever the cache holds.
\<close>

theorem cached_count_fallback:
  assumes "\<forall>m \<in> set manifests. well_keyed m"
    and "''DownloadCount'' \<in> set (required_manifest_keys cfg)"
  shows "\<exists>out fs' written.
           finish_run cfg src cache fs manifests = Inr (out, fs', written) \<and>
           length out = length manifests \<and>
           (\<forall>i < length manifests.
              (out ! i) ''DownloadCount'' =
                (if py_eq (get_default (manifests ! i) ''DownloadCount'' (JInt 0)) (JInt 0)
                 then (case cache (dict_key (get_none (manifests ! i) ''InternalName'')) of
                         Some cached \<Rightarrow> Some cached
                       | None \<Rightarrow> (manifests ! i) ''DownloadCount'')
                 else (manifests ! i) ''DownloadCount''))"
proof -
  from finish_run_result [OF assms(1), of cfg src cache fs] obtain rt fs' written where
    r: "finish_run cfg src cache fs manifests =
          Inr (map (\<lambda>m. reattach rt (trim_manifest cfg (tail_manifest cfg src cache m))) manifests,
               fs', written)"
    by blast
  let ?out = "map (\<lambda>m. reattach rt (trim_manifest cfg (tail_manifest cfg src cache m))) manifests"
  have "(?out ! i) ''DownloadCount'' =
          (if py_eq (get_default (manifests ! i) ''DownloadCount'' (JInt 0)) (JInt 0)
           then (case cache (dict_key (get_none (manifests ! i) ''InternalName'')) of
                   Some cached \<Rightarrow> Some cached
                 | None \<Rightarrow> (manifests ! i) ''DownloadCount'')
           else (manifests ! i) ''DownloadCount'')" if "i < length manifests" for i
    using that
    by (simp add: reattached_count [OF assms(2)] with_cached_count_def split: option.splits)
  then show ?thesis
    using r by (intro exI conjI) (assumption, simp, blast)
qed

lemma final_record_form:
  assumes "\<forall>m \<in> set ms3. routable m"
    and "write_plugin_master cfg ms3 True fs1 = Inr (fs', written)"
    and "p \<in> snd ` set (output_files cfg)"
    and "fs' p = Some (Catalog recs)"
    and "r \<in> set recs"
  shows "\<exists>m \<in> set ms3. r = m(''_output_name'' := None)"
proof -
  let ?st = "write_outputs (output_files cfg) (grouped cfg True ms3) (fs1, {})"
  from assms(2) have "fs' = cleanup_stale_outputs (snd ?st) (fst ?st)"
    by (auto simp: write_plugin_master_result [OF assms(1)] Let_def)
  with assms(4) have "fst ?st p = Some (Catalog recs)"
    by (simp add: cleanup_stale_outputs_def split: if_splits)
  with write_outputs_state [OF assms(3), of "grouped cfg True ms3" fs1 "{}"]
  obtain n where "recs = grouped cfg True ms3 n"
    by auto
  with assms(5) show ?thesis
    by (auto simp: grouped_def clean_def)
qed

text \<open>
  C8. When the identifiers and routing tags of the manifests are hashable, the end of the
  run returns, and every record of every configured catalog file that exists afterwards
  has only required fields as keys and never \<^verbatim>\<open>_output_name\<close>; it has none of the internal
  routing and provenance fields when the required fields name none of them, as in the
  default configuration; and on the required fields other than the counter, the timestamp
  and the provenance flag it agrees with one of the manifests, absent fields staying
  absent.
\<close>

theorem final_records_trimmed:
  assumes "\<forall>m \<in> set manifests. well_keyed m"
  shows "\<exists>out fs' written.
           finish_run cfg src cache fs manifests = Inr (out, fs', written) \<and>
           (\<forall>p recs r.
              p \<in> snd ` set (output_files cfg) \<and> fs' p = Some (Catalog recs) \<and> r \<in> set recs \<longrightarrow>
              dom r \<subseteq> set (required_manifest_keys cfg) - {''_output_name''} \<and>
              (set (required_manifest_keys cfg) \<inter> internal_fields \<subseteq> {''_output_name''} \<longrightarrow>
                 dom r \<inter> internal_fields = {}) \<and>
              (\<exists>m \<in> set manifests.
                 \<forall>k \<in> set (required_manifest_keys cfg)
                       - {''_output_name'', ''DownloadCount'', ''LastUpdate'', ''_repository_source''}.
                   r k = m k))"
proof -
  let ?keys = "set (required_manifest_keys cfg)"
  let ?f = "\<lambda>rt m. reattach rt (trim_manifest cfg (tail_manifest cfg src cache m))"
  from finish_run_result [OF assms, of cfg src cache fs] obtain rt fs' written fs1 where
    r: "finish_run cfg src cache fs manifests = Inr (map (?f rt) manifests, fs', written)"
    and w: "write_plugin_master cfg (map (?f rt) manifests) True fs1 = Inr (fs', written)"
    and rt: "\<forall>m \<in> set manifests. routable (?f rt m)"
    by blast
  have rec: "dom r \<subseteq> ?keys - {''_output_name''} \<and>
      (?keys \<inter> internal_fields \<subseteq> {''_output_name''} \<longrightarrow> dom r \<inter> internal_fields = {}) \<and>
      (\<exists>m \<in> set manifests.
         \<forall>k \<in> ?keys - {''_output_name'', ''DownloadCount'', ''LastUpdate'', ''_repository_source''}.
           r k = m k)"
    if "p \<in> snd ` set (output_files cfg)" "fs' p = Some (Catalog recs)" "r \<in> set recs"
    for p recs r
  proof -
    have "\<forall>m \<in> set (map (?f rt) manifests). routable m"
      using rt by simp
    from final_record_form [OF this w that] obtain m where
      m: "m \<in> set manifests" and form: "r = (?f rt m)(''_output_name'' := None)"
      by auto
    let ?t = "tail_manifest cfg src cache m"
    have form': "r = (trim_manifest cfg ?t)(''_output_name'' := None)"
      unfolding form reattach_def by simp
    have look: "r k = (if k \<in> ?keys \<and> k \<noteq> ''_output_name'' then ?t k else None)" for k
      unfolding form' trim_manifest_def restrict_map_def by simp
    have a: "dom r \<subseteq> ?keys - {''_output_name''}"
    proof
      fix k assume "k \<in> dom r"
      then have "r k \<noteq> None" by auto
      then show "k \<in> ?keys - {''_output_name''}"
        unfolding look by (simp split: if_splits)
    qed
    have b: "?keys \<inter> internal_fields \<subseteq> {''_output_name''} \<longrightarrow> dom r \<inter> internal_fields = {}"
      using a by blast
    have c: "\<forall>k \<in> ?keys - {''_output_name'', ''DownloadCount'', ''LastUpdate'',
                          ''_repository_source''}. r k = m k"
    proof
      fix k
      assume k: "k \<in> ?keys - {''_output_name'', ''DownloadCount'', ''LastUpdate'',
                               ''_repository_source''}"
      then have "?t k = m k"
        by (intro tail_manifest_frame) blast
      moreover from k have "k \<in> ?keys \<and> k \<noteq> ''_output_name''"
        by blast
      ultimately show "r k = m k"
        unfolding look by simp
    qed
    have d: "\<exists>m \<in> set manifests.
         \<forall>k \<in> ?keys - {''_output_name'', ''DownloadCount'', ''LastUpdate'', ''_repository_source''}.
           r k = m k"
    proof (rule bexI [where x = m])
      show "\<forall>k \<in> ?keys - {''_output_name'', ''DownloadCount'', ''LastUpdate'',
                          ''_repository_source''}. r k = m k"
        by (rule c)
      show "m \<in> set manifests"
        by (rule m)
    qed
    show ?thesis
      using a b d by (intro conjI) assumption+
  qed
  show ?thesis
  proof (intro exI conjI)
    show "finish_run cfg src cache fs manifests = Inr (map (?f rt) manifests, fs', written)"
      by (rule r)
    show "\<forall>p recs r.
       p \<in> snd ` set (output_files cfg) \<and> fs' p = Some (Catalog recs) \<and> r \<in> set recs \<longrightarrow>
       dom r \<subseteq> ?keys - {''_output_name''} \<and>
       (?keys \<inter> internal_fields \<subseteq> {''_output_name''} \<longrightarrow> dom r \<inter> internal_fields = {}) \<and>
       (\<exists>m \<in> set manifests.
          \<forall>k \<in> ?keys - {''_output_name'', ''DownloadCount'', ''LastUpdate'', ''_repository_source''}.
            r k = m k)"
    proof (intro allI impI)
      fix p recs r
      assume "p \<in> snd ` set (output_files cfg) \<and> fs' p = Some (Catalog recs) \<and> r \<in> set recs"
      then have "p \<in> snd ` set (output_files cfg)" "fs' p = Some (Catalog recs)" "r \<in> set recs"
        by simp_all
      then show "dom r \<subseteq> ?keys - {''_output_name''} \<and>
         (?keys \<inter> internal_fields \<subseteq> {''_output_name''} \<longrightarrow> dom r \<inter> internal_fields = {}) \<and>
         (\<exists>m \<in> set manifests.
            \<forall>k \<in> ?keys - {''_output_name'', ''DownloadCount'', ''LastUpdate'', ''_repository_source''}.
              r k = m k)"
        by (rule rec)
    qed
  qed
qed

lemmas collect_eval = process_plugin_directory_def read_archive_def example_plugin_dir_def
  example_primary_def example_global_def example_local_sources_def example_config_def
  load_default_def api_suffix_def show_int_13 py_str_def collect_manifests_with_priority_def
  collect_local_manifests_def bind_err_def get_none_def get_default_def hashable_def dict_key_def
  attach_output_name_def plugin_outputs_get_def Let_def

text \<open>
  C9. For a plugin directory that no remote source claims, with a readable primary
  archive and a readable global archive whose manifests both have the identifier
  \<^verbatim>\<open>Foo\<close>, the directory yields two manifests, the second named \<^verbatim>\<open>Foo (API13)\<close>, but the
  aggregated collection has one entry only, the primary manifest: the second is skipped
  because its identifier is already in \<^verbatim>\<open>processed_plugins\<close>.
\<close>

theorem global_variant_dropped_by_collection:
  "process_plugin_directory example_config example_plugin_dir =
     Inr [example_primary, example_global(''Name'' \<mapsto> JStr ''Foo (API13)'')] \<and>
   collect_manifests_with_priority example_config example_local_sources =
     Inr [example_primary(''_output_name'' \<mapsto> JStr ''default'')]"
  by (simp add: collect_eval)

text \<open>
  The loop over the local manifests keeps at most one manifest per identifier.
\<close>

lemma collect_remaining_same_identifier:
  assumes "get_none a ''InternalName'' = JStr (c # cs)"
    and "get_none b ''InternalName'' = JStr (c # cs)"
  shows "collect_remaining [a, b] (ms, processed) =
           Inr (if JStr (c # cs) \<in> processed then ms else ms @ [a],
                insert (JStr (c # cs)) processed)"
  using assms by (auto simp: Let_def hashable_def dict_key_def insert_absorb)

lemmas tail_eval = with_cached_count_def get_default_def get_none_def dict_key_def hashable_def
  well_keyed_def routable_def example_uncounted_def example_counted_def example_config_def
  load_default_def default_required_manifest_keys_def example_previous_disk_def

theorem cached_count_fallback_witness:
  "well_keyed example_uncounted \<and> well_keyed example_counted \<and>
   ''DownloadCount'' \<in> set (required_manifest_keys example_config) \<and>
   example_uncounted ''DownloadCount'' = Some (JInt 0) \<and>
   example_counted ''DownloadCount'' = Some (JInt 5) \<and>
   load_existing_download_counts (output_files example_config) example_previous_disk Map.empty
     (JStr ''Foo'') = Some (JInt 42) \<and>
   load_existing_download_counts (output_files example_config) example_previous_disk Map.empty
     (JStr ''Bar'') = Some (JInt 7) \<and>
   count_after (finish_run example_config example_local_sources
       (load_existing_download_counts (output_files example_config) example_previous_disk Map.empty)
       example_previous_disk [example_uncounted, example_counted]) 0 = Inr (Some (JInt 42)) \<and>
   count_after (finish_run example_config example_local_sources
       (load_existing_download_counts (output_files example_config) example_previous_disk Map.empty)
       example_previous_disk [example_uncounted, example_counted]) 1 = Inr (Some (JInt 5))"
proof -
  let ?cache = "load_existing_download_counts (output_files example_config)
                  example_previous_disk Map.empty"
  let ?ms = "[example_uncounted, example_counted]"
  have wk: "well_keyed example_uncounted" "well_keyed example_counted"
    by (simp_all add: tail_eval)
  then have h1: "\<forall>m \<in> set ?ms. well_keyed m"
    by simp
  have h2: "''DownloadCount'' \<in> set (required_manifest_keys example_config)"
    by (simp add: tail_eval)
  have live: "example_uncounted ''DownloadCount'' = Some (JInt 0)"
    "example_counted ''DownloadCount'' = Some (JInt 5)"
    by (simp_all add: tail_eval)
  have cache: "?cache (JStr ''Foo'') = Some (JInt 42)" "?cache (JStr ''Bar'') = Some (JInt 7)"
    by (simp_all add: tail_eval)
  from cached_count_fallback [OF h1 h2, of example_local_sources ?cache example_previous_disk]
  obtain out fs' written where
    r: "finish_run example_config example_local_sources ?cache example_previous_disk ?ms
          = Inr (out, fs', written)"
    and c: "\<forall>i < length ?ms.
              (out ! i) ''DownloadCount'' =
                (if py_eq (get_default (?ms ! i) ''DownloadCount'' (JInt 0)) (JInt 0)
                 then (case ?cache (dict_key (get_none (?ms ! i) ''InternalName'')) of
                         Some cached \<Rightarrow> Some cached
                       | None \<Rightarrow> (?ms ! i) ''DownloadCount'')
                 else (?ms ! i) ''DownloadCount'')"
    by (elim exE conjE) (rule that, assumption+)
  have n: "get_none example_uncounted ''InternalName'' = JStr ''Foo''"
    by (simp add: tail_eval)
  from c [rule_format, of 0] live(1) cache(1) n have "(out ! 0) ''DownloadCount'' = Some (JInt 42)"
    by (simp add: get_default_def dict_key_def)
  moreover from c [rule_format, of 1] live(2) have "(out ! 1) ''DownloadCount'' = Some (JInt 5)"
    by (simp add: get_default_def)
  ultimately show ?thesis
    using wk h2 live cache by (simp add: count_after_def r)
qed

lemmas run_eval = finish_run_def bind_err_def use_cached_count_def update_last_modified_one_def
  write_plugin_master_def destination_def grouped_def clean_def trim_and_route_def reattach_def
  trim_manifest_def cleanup_stale_outputs_def catalog_after_def Let_def

theorem final_records_trimmed_witness:
  "well_keyed example_uncounted \<and>
   set (required_manifest_keys example_config) \<inter> internal_fields = {} \<and>
   (\<exists>r. catalog_after (finish_run example_config example_local_sources Map.empty Map.empty
                          [example_uncounted]) ''pluginmaster.json''
          = Inr (Some (Catalog [r])) \<and>
        r ''InternalName'' = Some (JStr ''Foo'') \<and>
        dom r \<inter> internal_fields = {})"
proof -
  let ?run = "finish_run example_config example_local_sources Map.empty Map.empty [example_uncounted]"
  have wk: "well_keyed example_uncounted"
    by (simp add: tail_eval)
  then have h1: "\<forall>m \<in> set [example_uncounted]. well_keyed m"
    by simp
  have keys: "set (required_manifest_keys example_config) \<inter> internal_fields = {}"
    by (simp add: tail_eval internal_fields_def)
  have path: "''pluginmaster.json'' \<in> snd ` set (output_files example_config)"
    by (simp add: tail_eval)
  have ev: "\<exists>r. catalog_after ?run ''pluginmaster.json'' = Inr (Some (Catalog [r])) \<and>
                r ''InternalName'' = Some (JStr ''Foo'')"
    by (simp add: run_eval tail_eval)
  then obtain r where r: "catalog_after ?run ''pluginmaster.json'' = Inr (Some (Catalog [r]))"
    and name: "r ''InternalName'' = Some (JStr ''Foo'')"
    by blast
  from final_records_trimmed [OF h1, of example_config example_local_sources Map.empty Map.empty]
  obtain out fs' written where
    run: "?run = Inr (out, fs', written)"
    and p: "\<forall>p recs r.
              p \<in> snd ` set (output_files example_config) \<and> fs' p = Some (Catalog recs) \<and>
              r \<in> set recs \<longrightarrow>
              dom r \<subseteq> set (required_manifest_keys example_config) - {''_output_name''} \<and>
              (set (required_manifest_keys example_config) \<inter> internal_fields \<subseteq> {''_output_name''} \<longrightarrow>
                 dom r \<inter> internal_fields = {}) \<and>
              (\<exists>m \<in> set [example_uncounted].
                 \<forall>k \<in> set (required_manifest_keys example_config)
                       - {''_output_name'', ''DownloadCount'', ''LastUpdate'', ''_repository_source''}.
                   r k = m k)"
    by (elim exE conjE) (rule that, assumption+)
  from r run have fl: "fs' ''pluginmaster.json'' = Some (Catalog [r])"
    by (simp add: catalog_after_def)
  from p [rule_format, of "''pluginmaster.json''" "[r]" r] path fl keys
  have "dom r \<inter> internal_fields = {}"
    by simp
  with r name have "\<exists>r. catalog_after ?run ''pluginmaster.json'' = Inr (Some (Catalog [r])) \<and>
        r ''InternalName'' = Some (JStr ''Foo'') \<and> dom r \<inter> internal_fields = {}"
    by blast
  with wk keys show ?thesis
    by (intro conjI)
qed

end
